theory Spec2Isabelle
  imports Main "HOL-Library.Sublist"
begin

section \<open>Kraken: the request router of \<open>kraken/site.py\<close>\<close>

text \<open>
  The class \<open>Site\<close> of \<open>kraken/site.py\<close> routes a request path to a static file, a
  template or a Python controller found under the site root. The embedding below keeps
  the source's names. The collaborators the source only calls (the file system, the
  interpreter that executes a controller file, the template engines, \<open>mimetypes\<close>,
  \<open>kraken.utils\<close>) are the fields of the record \<open>host\<close>; every function that touches
  the file system or the module cache passes a \<open>state\<close> along and returns it updated.
  Exceptions are values: a result is \<open>Inl e\<close> when the source raises \<open>e\<close>.
  Paths follow \<open>posixpath\<close>.
\<close>

subsection \<open>Strings: \<open>split\<close>, \<open>strip\<close>, \<open>join\<close>, \<open>in\<close>, \<open>os.path.join\<close>\<close>

text \<open>\<open>s.split(sep)\<close> for a one-character separator: never an empty list.\<close>

fun str_split :: "char \<Rightarrow> string \<Rightarrow> string list" where
  "str_split sep [] = [[]]"
| "str_split sep (c # cs) =
     (if c = sep then [] # str_split sep cs
      else (case str_split sep cs of
              [] \<Rightarrow> [[c]]
            | w # ws \<Rightarrow> (c # w) # ws))"

text \<open>\<open>s.strip(c)\<close>: leading and trailing occurrences of the character removed.\<close>

definition str_strip :: "char \<Rightarrow> string \<Rightarrow> string" where
  "str_strip c s = rev (dropWhile (\<lambda>x. x = c) (rev (dropWhile (\<lambda>x. x = c) s)))"

text \<open>\<open>sep.join(parts)\<close>.\<close>

fun str_join :: "string \<Rightarrow> string list \<Rightarrow> string" where
  "str_join sep [] = []"
| "str_join sep [x] = x"
| "str_join sep (x # y # ys) = x @ sep @ str_join sep (y # ys)"

text \<open>\<open>needle in haystack\<close> on strings: the substring test.\<close>

fun str_contains :: "string \<Rightarrow> string \<Rightarrow> bool" where
  "str_contains needle [] = (needle = [])"
| "str_contains needle (c # cs) = (prefix needle (c # cs) \<or> str_contains needle cs)"

text \<open>
  The comprehension \<open>[part for part in p.split(u'/') if part and part != u'..']\<close>, which
  the source writes out in \<open>handle_static_file\<close>, \<open>handle_python\<close>,
  \<open>load_python_module\<close> and \<open>find_template\<close>.
\<close>

definition path_parts :: "string \<Rightarrow> string list" where
  "path_parts p = filter (\<lambda>part. part \<noteq> [] \<and> part \<noteq> ''..'') (str_split CHR ''/'' p)"

text \<open>
  \<open>posixpath.join(a, *p)\<close>: a component that starts with a slash replaces what was
  joined so far; otherwise it is appended, after a slash unless the path so far is
  empty or ends with one.
\<close>

definition join_step :: "string \<Rightarrow> string \<Rightarrow> string" where
  "join_step path b =
     (if b \<noteq> [] \<and> hd b = CHR ''/'' then b
      else if path = [] \<or> last path = CHR ''/'' then path @ b
      else path @ ''/'' @ b)"

definition os_path_join :: "string \<Rightarrow> string list \<Rightarrow> string" where
  "os_path_join a p = foldl join_step a p"

subsection \<open>Requests, responses, exceptions, namespaces\<close>

text \<open>
  \<open>NotFound\<close> is a subclass of \<open>HTTPException\<close>; \<open>OtherHTTP\<close> stands for the other
  HTTP exceptions (by status code) and \<open>PyError\<close> for every exception outside that
  family (by class name).
\<close>

datatype exn = NotFound | OtherHTTP nat | PyError string

fun is_HTTPException :: "exn \<Rightarrow> bool" where
  "is_HTTPException NotFound = True"
| "is_HTTPException (OtherHTTP code) = True"
| "is_HTTPException (PyError cls) = False"

datatype service = KoralSite string | KalamarSite "string option"

record request =
  path :: string
  req_koral_site :: "service option"
  req_kalamar_site :: "service option"

text \<open>
  What a resolver returns: \<open>utils.StaticFileResponse(filename)\<close>,
  \<open>utils.Response(content, mimetype=mimetype)\<close>, whatever a controller returns, or the
  HTTP exception that \<open>__call__\<close> returns as a response.
\<close>

datatype response =
    StaticFileResponse string
  | Response string "string option"
  | HandlerResponse string
  | ExnResponse exn

text \<open>
  A value bound in a module's namespace: a string (as \<open>__name__\<close>) or a function
  object, given by the number of parameters its \<open>def\<close> declares and by what a call
  with the request and further positional string arguments does.
\<close>

datatype pyval =
    PyStr string
  | PyFun nat "request \<Rightarrow> string list \<Rightarrow> exn + response"

type_synonym namespace = "string \<rightharpoonup> pyval"

text \<open>Calling a value: calling a string raises \<open>TypeError\<close>.\<close>

fun py_call :: "pyval \<Rightarrow> request \<Rightarrow> string list \<Rightarrow> exn + response" where
  "py_call (PyFun n f) req args = f req args"
| "py_call (PyStr v) req args = Inl (PyError ''TypeError'')"

subsection \<open>The site, its host and its state\<close>

text \<open>
  \<open>engines\<close> is \<open>koral_site.engines\<close>: the engine names in iteration order, each with its
  \<open>render(template_name, values)\<close>, where \<open>values\<close> is \<open>{'request': request}\<close>.
\<close>

record site =
  site_root :: string
  engines :: "(string \<times> (string \<Rightarrow> request \<Rightarrow> exn + string)) list"
  kalamar_conf :: "string option"

text \<open>
  The host: a snapshot of the file system (\<open>os.path.isfile\<close>, \<open>os.path.isdir\<close>,
  \<open>os.listdir\<close>, \<open>os.stat(f).st_mtime\<close>; only equality of modification times is used,
  so their type is a parameter), the interpreter (\<open>execfile(filename, namespace)\<close>
  returns the namespace as the file's top-level code leaves it, or raises),
  \<open>mimetypes.guess_type\<close> (its first component) and \<open>utils.arg_count\<close>, which is not
  part of \<open>site.py\<close> and is taken as given.
\<close>

record 't host =
  isfile :: "string \<Rightarrow> bool"
  isdir :: "string \<Rightarrow> bool"
  listdir :: "string \<Rightarrow> string list"
  st_mtime :: "string \<Rightarrow> 't"
  execfile :: "string \<Rightarrow> namespace \<Rightarrow> exn + namespace"
  guess_type :: "string \<Rightarrow> string option"
  arg_count :: "pyval \<Rightarrow> exn + nat"

text \<open>
  The operations a request performs on the file system, in order; \<open>ExecFile f n\<close> is
  the execution of file \<open>f\<close> in a namespace whose \<open>__name__\<close> is \<open>n\<close>.
\<close>

datatype fs_op =
    IsFile string
  | IsDir string
  | ListDir string
  | Stat string
  | ExecFile string string

fun op_path :: "fs_op \<Rightarrow> string" where
  "op_path (IsFile f) = f"
| "op_path (IsDir f) = f"
| "op_path (ListDir f) = f"
| "op_path (Stat f) = f"
| "op_path (ExecFile f n) = f"

text \<open>
  The mutable part: \<open>self._module_cache\<close>, and the trace of file-system operations
  performed so far (the oldest first).
\<close>

record 't state =
  module_cache :: "string \<rightharpoonup> (namespace \<times> 't)"
  fs_trace :: "fs_op list"

definition log_op :: "fs_op \<Rightarrow> 't state \<Rightarrow> 't state" where
  "log_op ev s = s\<lparr>fs_trace := fs_trace s @ [ev]\<rparr>"

subsection \<open>\<open>Site.load_python_module\<close>\<close>

definition module_filename :: "site \<Rightarrow> string \<Rightarrow> string" where
  "module_filename self name = os_path_join (site_root self) (path_parts name) @ ''.py''"

definition module_qualname :: "string \<Rightarrow> string" where
  "module_qualname name = ''kraken.site.'' @ str_join ''.'' (path_parts name)"

definition load_python_module ::
  "site \<Rightarrow> 't host \<Rightarrow> string \<Rightarrow> 't state \<Rightarrow> (exn + namespace) \<times> 't state" where
  "load_python_module self h name s =
     (let filename = module_filename self name;
          s1 = log_op (IsFile filename) s
      in if \<not> isfile h filename then (Inr Map.empty, s1)
         else
           let mtime = st_mtime h filename;
               s2 = log_op (Stat filename) s1;
               cached = (case module_cache s2 filename of
                           None \<Rightarrow> None
                         | Some (module, old_mtime) \<Rightarrow>
                             if mtime = old_mtime then Some module else None)
           in case cached of
                Some module \<Rightarrow> (Inr module, s2)
              | None \<Rightarrow>
                  let s3 = log_op (ExecFile filename (module_qualname name)) s2
                  in case execfile h filename (Map.empty(''__name__'' \<mapsto> PyStr (module_qualname name))) of
                       Inl e \<Rightarrow> (Inl e, s3)
                     | Inr namespace \<Rightarrow>
                         (Inr namespace,
                          s3\<lparr>module_cache := (module_cache s3)(filename \<mapsto> (namespace, mtime))\<rparr>))"

subsection \<open>\<open>Site.handle_static_file\<close>\<close>

definition static_filename :: "site \<Rightarrow> string \<Rightarrow> string" where
  "static_filename self p = os_path_join (site_root self) (path_parts p)"

definition handle_static_file ::
  "site \<Rightarrow> 't host \<Rightarrow> request \<Rightarrow> 't state \<Rightarrow> (exn + response) \<times> 't state" where
  "handle_static_file self h req s =
     (let filename = static_filename self (path req);
          s1 = log_op (IsFile filename) s
      in if \<not> isfile h filename then (Inl NotFound, s1)
         else (Inr (StaticFileResponse filename), s1))"

subsection \<open>\<open>Site.handle_python\<close>\<close>

text \<open>
  The first loop, \<open>for suffix in (u'', u'/index')\<close>: the module named by the whole
  path. \<open>Some r\<close> is the function's exit with \<open>r\<close> (a \<open>return\<close>, or an exception on
  its way out); \<open>None\<close> is the loop's normal end.
\<close>

fun exact_loop ::
  "site \<Rightarrow> 't host \<Rightarrow> request \<Rightarrow> string list \<Rightarrow> 't state \<Rightarrow>
     (exn + response) option \<times> 't state" where
  "exact_loop self h req [] s = (None, s)"
| "exact_loop self h req (sfx # sfxs) s =
     (case load_python_module self h (str_strip CHR ''/'' (path req) @ sfx) s of
        (Inl e, s') \<Rightarrow> (Some (Inl e), s')
      | (Inr module, s') \<Rightarrow>
          (case module ''handle_request'' of
             None \<Rightarrow> exact_loop self h req sfxs s'
           | Some handler \<Rightarrow>
               (case arg_count h handler of
                  Inl e \<Rightarrow> (Some (Inl e), s')
                | Inr n \<Rightarrow>
                    if n = 1 then (Some (py_call handler req []), s')
                    else exact_loop self h req sfxs s')))"

text \<open>
  The loop \<open>for suffix in (u'', u'/index')\<close> inside the \<open>while\<close>, for one value of
  \<open>script_name\<close> and \<open>path_info\<close>.
\<close>

fun prefix_loop ::
  "site \<Rightarrow> 't host \<Rightarrow> request \<Rightarrow> string list \<Rightarrow> string list \<Rightarrow> string list \<Rightarrow>
     't state \<Rightarrow> (exn + response) option \<times> 't state" where
  "prefix_loop self h req script_name path_info [] s = (None, s)"
| "prefix_loop self h req script_name path_info (sfx # sfxs) s =
     (case load_python_module self h (str_join ''/'' script_name @ sfx) s of
        (Inl e, s') \<Rightarrow> (Some (Inl e), s')
      | (Inr module, s') \<Rightarrow>
          (case module ''handle_request'' of
             None \<Rightarrow> prefix_loop self h req script_name path_info sfxs s'
           | Some handler \<Rightarrow>
               (case arg_count h handler of
                  Inl e \<Rightarrow> (Some (Inl e), s')
                | Inr n \<Rightarrow>
                    if n > 1 then (Some (py_call handler req [str_join ''/'' path_info]), s')
                    else prefix_loop self h req script_name path_info sfxs s')))"

text \<open>
  \<open>while script_name:\<close> with \<open>path_info.appendleft(script_name.pop())\<close>, and the
  \<open>raise NotFound\<close> that follows the loop.
\<close>

function while_script_name ::
  "site \<Rightarrow> 't host \<Rightarrow> request \<Rightarrow> string list \<Rightarrow> string list \<Rightarrow> 't state \<Rightarrow>
     (exn + response) \<times> 't state" where
  "while_script_name self h req script_name path_info s =
     (if script_name = [] then (Inl NotFound, s)
      else
        (case prefix_loop self h req script_name path_info ['''', ''/index''] s of
           (Some r, s') \<Rightarrow> (r, s')
         | (None, s') \<Rightarrow>
             while_script_name self h req (butlast script_name)
               (last script_name # path_info) s'))"
  by pat_completeness auto
termination
  by (relation "measure (\<lambda>(self, h, req, script_name, path_info, s). length script_name)") auto

definition handle_python ::
  "site \<Rightarrow> 't host \<Rightarrow> request \<Rightarrow> 't state \<Rightarrow> (exn + response) \<times> 't state" where
  "handle_python self h req s =
     (case exact_loop self h req ['''', ''/index''] s of
        (Some r, s') \<Rightarrow> (r, s')
      | (None, s') \<Rightarrow> while_script_name self h req (path_parts (path req)) [] s')"

subsection \<open>\<open>Site.find_template\<close>\<close>

text \<open>
  \<open>re.match(base + suffix_re, name)\<close>, where \<open>base\<close> is a literal (\<open>u'index'\<close> or
  \<open>re.escape(path_parts[-1])\<close>) and \<open>suffix_re\<close> is
  \<open>\.(.+)\.(e1|...|en)$\<close> over the escaped engine names. Without flags, \<open>.\<close> matches
  every character but a newline, \<open>+\<close> is greedy, the alternatives are tried in order,
  and \<open>$\<close> matches at the end of the string and before a newline that ends it. The
  join of no engine names is the empty pattern, which matches the empty string.
\<close>

definition dollar :: "string \<Rightarrow> bool" where
  "dollar rest = (rest = [] \<or> rest = [CHR 0x0A])"

fun match_engine :: "string list \<Rightarrow> string \<Rightarrow> string option" where
  "match_engine [] rest = None"
| "match_engine (e # es) rest =
     (if prefix e rest \<and> dollar (drop (length e) rest) then Some e
      else match_engine es rest)"

definition engine_alternatives :: "site \<Rightarrow> string list" where
  "engine_alternatives self =
     (if engines self = [] then [[]] else map fst (engines self))"

text \<open>
  The greedy group \<open>(.+)\<close> has taken \<open>k\<close> characters of \<open>rest\<close>; on failure of what
  follows it gives one back.
\<close>

fun backtrack :: "string list \<Rightarrow> string \<Rightarrow> nat \<Rightarrow> (string \<times> string) option" where
  "backtrack alts rest 0 = None"
| "backtrack alts rest (Suc k) =
     (case drop (Suc k) rest of
        [] \<Rightarrow> backtrack alts rest k
      | c # tail \<Rightarrow>
          if c = CHR ''.'' then
            (case match_engine alts tail of
               Some e \<Rightarrow> Some (take (Suc k) rest, e)
             | None \<Rightarrow> backtrack alts rest k)
          else backtrack alts rest k)"

definition re_match :: "site \<Rightarrow> string \<Rightarrow> string \<Rightarrow> (string \<times> string) option" where
  "re_match self base name =
     (if prefix base name then
        (case drop (length base) name of
           [] \<Rightarrow> None
         | c # rest \<Rightarrow>
             if c = CHR ''.'' then
               backtrack (engine_alternatives self) rest
                 (length (takeWhile (\<lambda>x. x \<noteq> CHR 0x0A) rest))
             else None)
      else None)"

text \<open>\<open>for name in os.listdir(dirname)\<close>: the first entry that matches.\<close>

fun scan_names ::
  "site \<Rightarrow> string list \<Rightarrow> string \<Rightarrow> string list \<Rightarrow> (string \<times> string \<times> string) option" where
  "scan_names self dir_parts base [] = None"
| "scan_names self dir_parts base (name # names) =
     (case re_match self base name of
        Some (ty, engine) \<Rightarrow> Some (str_join ''/'' (dir_parts @ [name]), ty, engine)
      | None \<Rightarrow> scan_names self dir_parts base names)"

text \<open>
  \<open>for dir_parts, basename_re in searches\<close>; the function returns \<open>None\<close> when the loop
  ends.
\<close>

fun search_loop ::
  "site \<Rightarrow> 't host \<Rightarrow> (string list \<times> string) list \<Rightarrow> 't state \<Rightarrow>
     (string \<times> string \<times> string) option \<times> 't state" where
  "search_loop self h [] s = (None, s)"
| "search_loop self h ((dir_parts, base) # searches) s =
     (let dirname = os_path_join (site_root self) dir_parts;
          s1 = log_op (IsDir dirname) s
      in if isdir h dirname then
           (let s2 = log_op (ListDir dirname) s1
            in case scan_names self dir_parts base (listdir h dirname) of
                 Some template \<Rightarrow> (Some template, s2)
               | None \<Rightarrow> search_loop self h searches s2)
         else search_loop self h searches s1)"

definition searches_of :: "string list \<Rightarrow> (string list \<times> string) list" where
  "searches_of parts =
     (parts, ''index'') # (if parts \<noteq> [] then [(butlast parts, last parts)] else [])"

definition find_template ::
  "site \<Rightarrow> 't host \<Rightarrow> string \<Rightarrow> 't state \<Rightarrow> (string \<times> string \<times> string) option \<times> 't state" where
  "find_template self h p s = search_loop self h (searches_of (path_parts p)) s"

subsection \<open>\<open>Site.handle_simple_template\<close> and \<open>Site.__call__\<close>\<close>

definition handle_simple_template ::
  "site \<Rightarrow> 't host \<Rightarrow> request \<Rightarrow> 't state \<Rightarrow> (exn + response) \<times> 't state" where
  "handle_simple_template self h req s =
     (case find_template self h (path req) s of
        (None, s') \<Rightarrow> (Inl NotFound, s')
      | (Some (template_name, extension, engine), s') \<Rightarrow>
          (let mimetype = guess_type h (''_.'' @ extension)
           in case map_of (engines self) engine of
                None \<Rightarrow> (Inl (PyError ''KeyError''), s')
              | Some render \<Rightarrow>
                  (case render template_name req of
                     Inl e \<Rightarrow> (Inl e, s')
                   | Inr content \<Rightarrow> (Inr (Response content mimetype), s'))))"

text \<open>
  \<open>__call__\<close>: the two services are attached to the request, the resolvers run, and an
  HTTP exception that leaves them is returned as the response; any other exception
  propagates.
\<close>

definition attach :: "site \<Rightarrow> request \<Rightarrow> request" where
  "attach self req =
     req\<lparr>req_koral_site := Some (KoralSite (site_root self)),
         req_kalamar_site := Some (KalamarSite (kalamar_conf self))\<rparr>"

definition resolve ::
  "site \<Rightarrow> 't host \<Rightarrow> request \<Rightarrow> 't state \<Rightarrow> (exn + response) \<times> 't state" where
  "resolve self h req s =
     (if str_contains ''/__'' (path req) then handle_static_file self h req s
      else
        (case handle_simple_template self h req s of
           (Inl NotFound, s') \<Rightarrow> handle_python self h req s'
         | (r, s') \<Rightarrow> (r, s')))"

text \<open>\<open>except HTTPException, e: return e\<close>.\<close>

definition catch_HTTPException ::
  "(exn + response) \<times> 't state \<Rightarrow> (exn + response) \<times> 't state" where
  "catch_HTTPException outcome =
     (case outcome of
        (Inl e, s') \<Rightarrow>
          if is_HTTPException e then (Inr (ExnResponse e), s') else (Inl e, s')
      | (Inr r, s') \<Rightarrow> (Inr r, s'))"

definition site_call ::
  "site \<Rightarrow> 't host \<Rightarrow> request \<Rightarrow> 't state \<Rightarrow> (exn + response) \<times> 't state" where
  "site_call self h req s = catch_HTTPException (resolve self h (attach self req) s)"

subsection \<open>Example sites\<close>

text \<open>
  Two sites under \<open>/srv/site\<close> on which the functions above are evaluated. The first
  has the directory structure of the doctest of \<open>find_template\<close>:
  \<^verbatim>\<open>
    index.html.genshi
    hello.html.jinja2
    hello/
        index.genshi
        index.html
        index.html.foo
    lorem/
        index.txt.jinja2
  \<close>
  The second holds controllers: \<open>index.py\<close>, \<open>foo.py\<close> and \<open>page.py\<close> define
  \<open>handle_request(request, remainder)\<close>, \<open>page/index.py\<close> defines
  \<open>handle_request(request)\<close>, and \<open>/srv/site.py\<close> lies beside the site root.
\<close>

definition demo_site :: site where
  "demo_site =
     \<lparr>site_root = ''/srv/site'',
      engines = [(''genshi'', \<lambda>template_name req. Inr (''genshi:'' @ template_name)),
                 (''jinja2'', \<lambda>template_name req. Inr (''jinja2:'' @ template_name))],
      kalamar_conf = None\<rparr>"

definition demo_arg_count :: "pyval \<Rightarrow> exn + nat" where
  "demo_arg_count v = (case v of PyFun n f \<Rightarrow> Inr n | PyStr x \<Rightarrow> Inl (PyError ''TypeError''))"

definition demo_guess_type :: "string \<Rightarrow> string option" where
  "demo_guess_type name =
     (if name = ''_.html'' then Some ''text/html''
      else if name = ''_.txt'' then Some ''text/plain''
      else None)"

definition doc_listdir :: "string \<Rightarrow> string list" where
  "doc_listdir d =
     (if d = ''/srv/site'' then [''index.html.genshi'', ''hello.html.jinja2'', ''hello'', ''lorem'']
      else if d = ''/srv/site/hello'' then [''index.genshi'', ''index.html'', ''index.html.foo'']
      else if d = ''/srv/site/lorem'' then [''index.txt.jinja2'']
      else [])"

definition doc_host :: "nat host" where
  "doc_host =
     \<lparr>isfile = (\<lambda>f. f = ''/srv/site/index.html.genshi'' \<or> f = ''/srv/site/hello.html.jinja2'' \<or>
                     f = ''/srv/site/hello/index.genshi'' \<or> f = ''/srv/site/hello/index.html'' \<or>
                     f = ''/srv/site/hello/index.html.foo'' \<or>
                     f = ''/srv/site/lorem/index.txt.jinja2''),
      isdir = (\<lambda>d. d = ''/srv/site'' \<or> d = ''/srv/site/hello'' \<or> d = ''/srv/site/lorem''),
      listdir = doc_listdir,
      st_mtime = (\<lambda>f. 0),
      execfile = (\<lambda>f namespace. Inr namespace),
      guess_type = demo_guess_type,
      arg_count = demo_arg_count\<rparr>"

definition ctl_handler :: "nat \<Rightarrow> string \<Rightarrow> pyval" where
  "ctl_handler n tag =
     PyFun n (\<lambda>req args. Inr (HandlerResponse (tag @ '':'' @ str_join '','' args)))"

definition ctl_execfile :: "string \<Rightarrow> namespace \<Rightarrow> exn + namespace" where
  "ctl_execfile f namespace =
     (if f = ''/srv/site/index.py'' then
        Inr (namespace(''handle_request'' \<mapsto> ctl_handler 2 ''index''))
      else if f = ''/srv/site/foo.py'' then
        Inr (namespace(''handle_request'' \<mapsto> ctl_handler 2 ''foo''))
      else if f = ''/srv/site/page.py'' then
        Inr (namespace(''handle_request'' \<mapsto> ctl_handler 2 ''page''))
      else if f = ''/srv/site/page/index.py'' then
        Inr (namespace(''handle_request'' \<mapsto> ctl_handler 1 ''page/index''))
      else Inr namespace)"

definition ctl_host :: "nat host" where
  "ctl_host =
     \<lparr>isfile = (\<lambda>f. f = ''/srv/site/index.py'' \<or> f = ''/srv/site/foo.py'' \<or>
                     f = ''/srv/site/page.py'' \<or> f = ''/srv/site/page/index.py'' \<or>
                     f = ''/srv/site.py''),
      isdir = (\<lambda>d. d = ''/srv/site'' \<or> d = ''/srv/site/page''),
      listdir = (\<lambda>d. if d = ''/srv/site'' then [''index.py'', ''foo.py'', ''page.py'', ''page'']
                      else if d = ''/srv/site/page'' then [''index.py''] else []),
      st_mtime = (\<lambda>f. 1),
      execfile = ctl_execfile,
      guess_type = demo_guess_type,
      arg_count = demo_arg_count\<rparr>"

text \<open>The state of a site just constructed: \<open>self._module_cache = {}\<close>.\<close>

definition init_state :: "'t state" where
  "init_state = \<lparr>module_cache = Map.empty, fs_trace = []\<rparr>"

definition get_request :: "string \<Rightarrow> request" where
  "get_request p = \<lparr>path = p, req_koral_site = None, req_kalamar_site = None\<rparr>"

text \<open>
  What executing \<open>foo.py\<close> leaves in its namespace, and the state of the second site
  after \<open>foo\<close> has been loaded once.
\<close>

definition foo_namespace :: namespace where
  "foo_namespace =
     Map.empty(''__name__'' \<mapsto> PyStr ''kraken.site.foo'',
               ''handle_request'' \<mapsto> ctl_handler 2 ''foo'')"

definition foo_loaded :: "nat state" where
  "foo_loaded =
     \<lparr>module_cache = Map.empty(''/srv/site/foo.py'' \<mapsto> (foo_namespace, 1)),
      fs_trace = [IsFile ''/srv/site/foo.py'', Stat ''/srv/site/foo.py'',
                  ExecFile ''/srv/site/foo.py'' ''kraken.site.foo'']\<rparr>"

text \<open>
  A directory of the first site in which an entry's name ends with a newline, and a
  site with no engine registered.
\<close>

definition nl_host :: "nat host" where
  "nl_host =
     doc_host\<lparr>isdir := (\<lambda>d. d = ''/srv/site''),
              listdir := (\<lambda>d. if d = ''/srv/site'' then [''hello.html.jinja2'' @ [CHR 0x0A]]
                               else [])\<rparr>"

definition bare_site :: site where
  "bare_site = demo_site\<lparr>engines := []\<rparr>"

text \<open>
  The second site with its root written with a trailing slash, on a host where that
  directory holds a file named \<open>.py\<close>; and the state of the second site after the
  module of the empty name, \<open>/srv/site.py\<close>, has been loaded once.
\<close>

definition slash_site :: site where
  "slash_site = demo_site\<lparr>site_root := ''/srv/site/''\<rparr>"

definition slash_host :: "nat host" where
  "slash_host = ctl_host\<lparr>isfile := (\<lambda>f. f = ''/srv/site/.py'')\<rparr>"

definition root_loaded :: "nat state" where
  "root_loaded =
     \<lparr>module_cache =
        Map.empty(''/srv/site.py'' \<mapsto> (Map.empty(''__name__'' \<mapsto> PyStr ''kraken.site.''), 1)),
      fs_trace = [IsFile ''/srv/site.py'', Stat ''/srv/site.py'',
                  ExecFile ''/srv/site.py'' ''kraken.site.'']\<rparr>"

subsection \<open>Vocabulary of the properties\<close>

text \<open>A path none of whose slash-separated components is \<open>..\<close>.\<close>

definition safe_path :: "string \<Rightarrow> bool" where
  "safe_path p = (''..'' \<notin> set (str_split CHR ''/'' p))"

text \<open>
  The operations a call has added to the trace, when it took the state from \<open>s\<close> to
  \<open>s'\<close>; \<open>trace_ext P s s'\<close> says that the trace has only grown and that every added
  operation is on a path that satisfies \<open>P\<close>.
\<close>

definition new_ops :: "'t state \<Rightarrow> 't state \<Rightarrow> fs_op list" where
  "new_ops s s' = drop (length (fs_trace s)) (fs_trace s')"

definition trace_ext :: "(string \<Rightarrow> bool) \<Rightarrow> 't state \<Rightarrow> 't state \<Rightarrow> bool" where
  "trace_ext P s s' =
     (prefix (fs_trace s) (fs_trace s') \<and> list_all (\<lambda>ev. P (op_path ev)) (new_ops s s'))"

text \<open>
  What \<open>load_python_module\<close> returns for a module name in a given state, and the
  declared parameter count of the \<open>handle_request\<close> a namespace defines, if any.
\<close>

definition module_view :: "site \<Rightarrow> 't host \<Rightarrow> 't state \<Rightarrow> string \<Rightarrow> exn + namespace" where
  "module_view self h s name = fst (load_python_module self h name s)"

definition handler_arity :: "'t host \<Rightarrow> namespace \<Rightarrow> (exn + nat) option" where
  "handler_arity h module = map_option (arg_count h) (module ''handle_request'')"

text \<open>The cache holds a namespace for the file with the file's current modification time.\<close>

definition cache_fresh :: "'t host \<Rightarrow> 't state \<Rightarrow> string \<Rightarrow> bool" where
  "cache_fresh h s filename =
     (case module_cache s filename of
        None \<Rightarrow> False
      | Some (module, old_mtime) \<Rightarrow> st_mtime h filename = old_mtime)"

text \<open>What \<open>posixpath.join\<close> puts between the path so far and a relative component.\<close>

definition sep_after :: "string \<Rightarrow> string" where
  "sep_after a = (if a = [] \<or> last a = CHR ''/'' then [] else ''/'')"

text \<open>
  The steps of a path: its slash-separated components other than the empty one and
  \<open>.\<close>, which lead nowhere (a component \<open>..\<close> is kept as it is written). A file is
  under a directory when its steps begin with the steps of the directory and go on.
\<close>

definition path_steps :: "string \<Rightarrow> string list" where
  "path_steps p = filter (\<lambda>c. c \<noteq> [] \<and> c \<noteq> ''.'') (str_split CHR ''/'' p)"

definition under_dir :: "string \<Rightarrow> string \<Rightarrow> bool" where
  "under_dir d f = strict_prefix (path_steps d) (path_steps f)"

section \<open>Properties\<close>

subsection \<open>Loading modules\<close>

lemma load_absent:
  "\<not> isfile h (module_filename self name) \<Longrightarrow>
   load_python_module self h name s =
     (Inr Map.empty, log_op (IsFile (module_filename self name)) s)"
  by (simp add: load_python_module_def Let_def)

text \<open>
  Claim C8. When the file a module name resolves to does not exist,
  \<open>load_python_module\<close> returns the empty dictionary and raises nothing; the cache is
  left as it was. Both loops of \<open>handle_python\<close> then go on to their next suffix: the
  absence of a module is an ordinary negative outcome for the exact-path strategy and
  for the prefix strategy.
\<close>

theorem load_missing_module:
  assumes "\<not> isfile h (module_filename self name)"
  shows "load_python_module self h name s =
           (Inr Map.empty, log_op (IsFile (module_filename self name)) s)
         \<and> module_cache (snd (load_python_module self h name s)) = module_cache s
         \<and> (name = str_strip CHR ''/'' (path req) @ sfx \<longrightarrow>
              exact_loop self h req (sfx # sfxs) s =
                exact_loop self h req sfxs (log_op (IsFile (module_filename self name)) s))
         \<and> (name = str_join ''/'' script_name @ sfx \<longrightarrow>
              prefix_loop self h req script_name path_info (sfx # sfxs) s =
                prefix_loop self h req script_name path_info sfxs
                  (log_op (IsFile (module_filename self name)) s))"
  using assms by (auto simp add: load_absent log_op_def)

theorem load_missing_module_witness:
  "\<not> isfile ctl_host (module_filename demo_site ''a/b'')
   \<and> load_python_module demo_site ctl_host ''a/b'' (init_state :: nat state) =
           (Inr Map.empty, log_op (IsFile ''/srv/site/a/b.py'') init_state)
   \<and> exact_loop demo_site ctl_host (get_request ''/a/b'') [''''] (init_state :: nat state) =
           (None, log_op (IsFile ''/srv/site/a/b.py'') init_state)
   \<and> prefix_loop demo_site ctl_host (get_request ''/a/b'') [''a'', ''b''] [] [''''] (init_state :: nat state) =
           (None, log_op (IsFile ''/srv/site/a/b.py'') init_state)"
  using load_missing_module [of ctl_host demo_site "''a/b''" "init_state"
      "get_request ''/a/b''" "[]" "[]" "[''a'', ''b'']" "[]"]
  by (simp add: module_filename_def demo_site_def ctl_host_def os_path_join_def
      join_step_def path_parts_def get_request_def str_strip_def)

text \<open>
  Claim C5. For a module whose file exists: when the cache holds, under the file's
  name, a namespace stored with the file's current modification time,
  \<open>load_python_module\<close> returns that namespace, the file is not executed (the trace
  gains \<open>isfile\<close> and \<open>stat\<close> only) and the cache is unchanged. When the cache has no
  entry under that name, or one with another modification time, the file is executed
  in a namespace holding only \<open>__name__\<close>, which is \<open>kraken.site.\<close> followed by the
  module's path segments joined by dots; the resulting namespace is stored with the
  current modification time under the file's name, in place of whatever was there,
  and returned.
\<close>

theorem module_cache_hit_or_reload:
  assumes "isfile h (module_filename self name)"
  shows "(module_cache s (module_filename self name) =
            Some (module, st_mtime h (module_filename self name)) \<longrightarrow>
          load_python_module self h name s =
            (Inr module,
             s\<lparr>fs_trace := fs_trace s @
                  [IsFile (module_filename self name), Stat (module_filename self name)]\<rparr>))
       \<and> ((module_cache s (module_filename self name) = None \<or>
            (\<exists>old old_mtime.
                module_cache s (module_filename self name) = Some (old, old_mtime)
                \<and> old_mtime \<noteq> st_mtime h (module_filename self name)))
           \<and> execfile h (module_filename self name)
                 (Map.empty(''__name__'' \<mapsto> PyStr (module_qualname name))) = Inr namespace \<longrightarrow>
          load_python_module self h name s =
            (Inr namespace,
             s\<lparr>module_cache := (module_cache s)(module_filename self name \<mapsto>
                     (namespace, st_mtime h (module_filename self name))),
               fs_trace := fs_trace s @
                  [IsFile (module_filename self name), Stat (module_filename self name),
                   ExecFile (module_filename self name) (module_qualname name)]\<rparr>))
       \<and> module_qualname name = ''kraken.site.'' @ str_join ''.'' (path_parts name)"
  using assms
  by (auto simp add: load_python_module_def log_op_def Let_def module_qualname_def)

theorem module_cache_hit_or_reload_witness:
  "isfile ctl_host (module_filename demo_site ''foo'')
   \<and> load_python_module demo_site ctl_host ''foo'' init_state = (Inr foo_namespace, foo_loaded)
   \<and> load_python_module demo_site ctl_host ''foo'' foo_loaded =
        (Inr foo_namespace,
         foo_loaded\<lparr>fs_trace := fs_trace foo_loaded @
            [IsFile ''/srv/site/foo.py'', Stat ''/srv/site/foo.py'']\<rparr>)"
  using module_cache_hit_or_reload [of ctl_host demo_site "''foo''" init_state foo_namespace foo_namespace]
    module_cache_hit_or_reload [of ctl_host demo_site "''foo''" foo_loaded foo_namespace]
  by (simp add: module_filename_def demo_site_def ctl_host_def os_path_join_def
      join_step_def path_parts_def init_state_def foo_loaded_def foo_namespace_def
      ctl_execfile_def module_qualname_def)

subsection \<open>Splitting and joining paths\<close>

lemma str_split_nonempty [simp]: "str_split c s \<noteq> []"
  by (induction s) (auto split: list.splits)

lemma str_split_no_sep: "w \<in> set (str_split c s) \<Longrightarrow> c \<notin> set w"
proof (induction s arbitrary: w)
  case Nil
  then show ?case by simp
next
  case (Cons x xs)
  show ?case
  proof (cases "x = c")
    case True
    with Cons show ?thesis by auto
  next
    case False
    obtain v vs where vs: "str_split c xs = v # vs"
      by (cases "str_split c xs") auto
    with False Cons.prems have "w = x # v \<or> w \<in> set vs" by auto
    with False vs Cons.IH show ?thesis by auto
  qed
qed

lemma str_split_append_sep: "str_split c (a @ c # b) = str_split c a @ str_split c b"
proof (induction a)
  case Nil
  then show ?case by simp
next
  case (Cons x xs)
  obtain v vs where vs: "str_split c xs = v # vs"
    by (cases "str_split c xs") auto
  with Cons show ?case by auto
qed

lemma str_split_no_sep_id: "c \<notin> set b \<Longrightarrow> str_split c b = [b]"
  by (induction b) auto

lemma str_split_append_no_sep:
  "c \<notin> set b \<Longrightarrow> str_split c (a @ b) = butlast (str_split c a) @ [last (str_split c a) @ b]"
proof (induction a)
  case Nil
  then show ?case by (simp add: str_split_no_sep_id)
next
  case (Cons x xs)
  obtain v vs where vs: "str_split c xs = v # vs"
    by (cases "str_split c xs") auto
  obtain u us where us: "str_split c (xs @ b) = u # us"
    by (cases "str_split c (xs @ b)") auto
  from Cons vs us show ?case by (auto split: if_splits)
qed

lemma path_parts_clean:
  "part \<in> set (path_parts p) \<Longrightarrow> part \<noteq> [] \<and> part \<noteq> ''..'' \<and> CHR ''/'' \<notin> set part"
  by (auto simp add: path_parts_def dest: str_split_no_sep)

lemma join_step_components:
  assumes "CHR ''/'' \<notin> set b"
  shows "set (str_split CHR ''/'' (join_step a b)) \<subseteq> set (str_split CHR ''/'' a) \<union> {b}"
proof -
  have hd: "\<not> (b \<noteq> [] \<and> hd b = CHR ''/'')"
    using assms by (cases b) auto
  show ?thesis
  proof (cases "a = []")
    case True
    with hd assms show ?thesis by (simp add: join_step_def str_split_no_sep_id)
  next
    case False
    show ?thesis
    proof (cases "last a = CHR ''/''")
      case True
      with False have a: "a = butlast a @ [CHR ''/'']"
        by (metis append_butlast_last_id)
      have "str_split CHR ''/'' (a @ b) = str_split CHR ''/'' (butlast a) @ [b]"
        using assms by (subst a) (simp add: str_split_append_sep str_split_no_sep_id)
      moreover have "str_split CHR ''/'' a = str_split CHR ''/'' (butlast a) @ [[]]"
        by (subst a) (simp add: str_split_append_sep)
      ultimately show ?thesis using hd True False by (auto simp add: join_step_def)
    next
      case no_slash: False
      have "str_split CHR ''/'' (a @ CHR ''/'' # b) = str_split CHR ''/'' a @ [b]"
        using assms by (simp add: str_split_append_sep str_split_no_sep_id)
      with hd False no_slash show ?thesis by (auto simp add: join_step_def)
    qed
  qed
qed

lemma os_path_join_components:
  "\<forall>p\<in>set ps. CHR ''/'' \<notin> set p \<Longrightarrow>
   set (str_split CHR ''/'' (os_path_join a ps)) \<subseteq> set (str_split CHR ''/'' a) \<union> set ps"
unfolding os_path_join_def
proof (induction ps arbitrary: a)
  case Nil
  then show ?case by simp
next
  case (Cons p ps)
  have "set (str_split CHR ''/'' (foldl join_step (join_step a p) ps))
          \<subseteq> set (str_split CHR ''/'' (join_step a p)) \<union> set ps"
    using Cons by simp
  moreover have "set (str_split CHR ''/'' (join_step a p)) \<subseteq> set (str_split CHR ''/'' a) \<union> {p}"
    using Cons.prems join_step_components [of p a] by simp
  ultimately show ?case by auto
qed

lemma safe_os_path_join:
  assumes "safe_path a" and "set ps \<subseteq> set (path_parts p)"
  shows "safe_path (os_path_join a ps)"
proof -
  have clean: "\<forall>q\<in>set ps. CHR ''/'' \<notin> set q \<and> q \<noteq> ''..''"
    using assms(2) path_parts_clean by blast
  then have "set (str_split CHR ''/'' (os_path_join a ps)) \<subseteq> set (str_split CHR ''/'' a) \<union> set ps"
    by (simp add: os_path_join_components)
  with clean assms(1) show ?thesis unfolding safe_path_def by blast
qed

lemma safe_append_py:
  assumes "safe_path a"
  shows "safe_path (a @ ''.py'')"
proof -
  have "str_split CHR ''/'' (a @ ''.py'') =
          butlast (str_split CHR ''/'' a) @ [last (str_split CHR ''/'' a) @ ''.py'']"
    by (rule str_split_append_no_sep) simp
  moreover have "last (str_split CHR ''/'' a) @ ''.py'' \<noteq> ''..''"
  proof
    assume "last (str_split CHR ''/'' a) @ ''.py'' = ''..''"
    then have "length (last (str_split CHR ''/'' a) @ ''.py'') = length ''..''" by simp
    then show False by simp
  qed
  moreover have "''..'' \<notin> set (butlast (str_split CHR ''/'' a))"
    using assms unfolding safe_path_def by (meson in_set_butlastD)
  ultimately show ?thesis unfolding safe_path_def by simp
qed

lemma safe_static_filename: "safe_path (site_root self) \<Longrightarrow> safe_path (static_filename self p)"
  unfolding static_filename_def by (rule safe_os_path_join) auto

lemma safe_module_filename: "safe_path (site_root self) \<Longrightarrow> safe_path (module_filename self name)"
  unfolding module_filename_def by (intro safe_append_py safe_os_path_join) auto

lemma safe_search_dirs:
  assumes "safe_path (site_root self)" and "(dir_parts, base) \<in> set (searches_of (path_parts p))"
  shows "safe_path (os_path_join (site_root self) dir_parts)"
proof -
  have "set dir_parts \<subseteq> set (path_parts p)"
    using assms(2) by (auto simp add: searches_of_def split: if_splits dest: in_set_butlastD)
  with assms(1) show ?thesis by (rule safe_os_path_join)
qed

subsection \<open>The trace only grows\<close>

lemma trace_ext_iff:
  "trace_ext P s s' \<longleftrightarrow>
     (\<exists>ops. fs_trace s' = fs_trace s @ ops \<and> (\<forall>ev\<in>set ops. P (op_path ev)))"
  by (auto simp add: trace_ext_def new_ops_def prefix_def list_all_iff)

lemma trace_ext_refl [simp]: "trace_ext P s s"
  by (simp add: trace_ext_iff)

lemma trace_ext_trans: "trace_ext P s s' \<Longrightarrow> trace_ext P s' s'' \<Longrightarrow> trace_ext P s s''"
  by (fastforce simp add: trace_ext_iff)

lemma trace_ext_log: "P (op_path ev) \<Longrightarrow> trace_ext P s (log_op ev s)"
  by (simp add: trace_ext_iff log_op_def)

lemma trace_ext_log_then:
  "P (op_path ev) \<Longrightarrow> trace_ext P (log_op ev s) s' \<Longrightarrow> trace_ext P s s'"
  by (rule trace_ext_trans [OF trace_ext_log])

lemma trace_ext_cache [simp]:
  "trace_ext P s (s'\<lparr>module_cache := c\<rparr>) = trace_ext P s s'"
  by (simp add: trace_ext_iff)

lemma trace_ext_mono: "trace_ext P s s' \<Longrightarrow> (\<And>p. P p \<Longrightarrow> Q p) \<Longrightarrow> trace_ext Q s s'"
  by (auto simp add: trace_ext_iff)

lemma load_trace:
  "P (module_filename self name) \<Longrightarrow> trace_ext P s (snd (load_python_module self h name s))"
  by (auto simp add: load_python_module_def Let_def trace_ext_iff log_op_def
      split: option.splits sum.splits)

lemma exact_loop_trace:
  "(\<And>name. P (module_filename self name)) \<Longrightarrow>
   trace_ext P s (snd (exact_loop self h req sfxs s))"
proof (induction sfxs arbitrary: s)
  case Nil
  then show ?case by simp
next
  case (Cons sfx sfxs)
  let ?name = "str_strip CHR ''/'' (path req) @ sfx"
  obtain r s' where l: "load_python_module self h ?name s = (r, s')"
    by (cases "load_python_module self h ?name s")
  have "trace_ext P s s'"
    using load_trace [of P self ?name s h] Cons.prems l by simp
  moreover have "trace_ext P s' (snd (exact_loop self h req sfxs s'))"
    using Cons by simp
  ultimately have "trace_ext P s (snd (exact_loop self h req sfxs s'))"
    by (rule trace_ext_trans)
  with \<open>trace_ext P s s'\<close> l show ?case
    by (auto split: sum.splits option.splits)
qed

lemma prefix_loop_trace:
  "(\<And>name. P (module_filename self name)) \<Longrightarrow>
   trace_ext P s (snd (prefix_loop self h req script_name path_info sfxs s))"
proof (induction sfxs arbitrary: s)
  case Nil
  then show ?case by simp
next
  case (Cons sfx sfxs)
  let ?name = "str_join ''/'' script_name @ sfx"
  obtain r s' where l: "load_python_module self h ?name s = (r, s')"
    by (cases "load_python_module self h ?name s")
  have "trace_ext P s s'"
    using load_trace [of P self ?name s h] Cons.prems l by simp
  moreover have "trace_ext P s' (snd (prefix_loop self h req script_name path_info sfxs s'))"
    using Cons by simp
  ultimately have "trace_ext P s (snd (prefix_loop self h req script_name path_info sfxs s'))"
    by (rule trace_ext_trans)
  with \<open>trace_ext P s s'\<close> l show ?case
    by (auto split: sum.splits option.splits)
qed

declare while_script_name.simps [simp del]

lemma while_script_name_trace:
  "(\<And>name. P (module_filename self name)) \<Longrightarrow>
   trace_ext P s (snd (while_script_name self h req script_name path_info s))"
proof (induction self h req script_name path_info s rule: while_script_name.induct)
  case (1 self h req script_name path_info s)
  show ?case
  proof (cases "script_name = []")
    case True
    then show ?thesis by (simp add: while_script_name.simps)
  next
    case False
    obtain r s' where p: "prefix_loop self h req script_name path_info ['''', ''/index''] s = (r, s')"
      by (cases "prefix_loop self h req script_name path_info ['''', ''/index''] s")
    have step: "trace_ext P s s'"
      using prefix_loop_trace [of P self s h req script_name path_info "['''', ''/index'']"]
        "1.prems" p by simp
    show ?thesis
    proof (cases r)
      case None
      have "trace_ext P s' (snd (while_script_name self h req (butlast script_name)
              (last script_name # path_info) s'))"
        using "1.IH" [OF False p [symmetric] None] "1.prems" by simp
      with step have "trace_ext P s (snd (while_script_name self h req (butlast script_name)
              (last script_name # path_info) s'))"
        by (rule trace_ext_trans)
      with False p None show ?thesis
        by (subst while_script_name.simps) simp
    next
      case (Some a)
      with False p step show ?thesis
        by (subst while_script_name.simps) simp
    qed
  qed
qed

lemma handle_python_trace:
  assumes "\<And>name. P (module_filename self name)"
  shows "trace_ext P s (snd (handle_python self h req s))"
proof -
  obtain r s' where e: "exact_loop self h req ['''', ''/index''] s = (r, s')"
    by (cases "exact_loop self h req ['''', ''/index''] s")
  have step: "trace_ext P s s'"
    using exact_loop_trace [of P self s h req "['''', ''/index'']"] assms e by simp
  show ?thesis
  proof (cases r)
    case None
    have "trace_ext P s' (snd (while_script_name self h req (path_parts (path req)) [] s'))"
      using assms by (rule while_script_name_trace)
    with step have "trace_ext P s (snd (while_script_name self h req (path_parts (path req)) [] s'))"
      by (rule trace_ext_trans)
    with e None show ?thesis by (simp add: handle_python_def)
  next
    case (Some a)
    with e step show ?thesis by (simp add: handle_python_def)
  qed
qed

lemma handle_static_file_trace:
  "P (static_filename self (path req)) \<Longrightarrow>
   trace_ext P s (snd (handle_static_file self h req s))"
  by (simp add: handle_static_file_def Let_def trace_ext_log)

lemma search_loop_trace:
  "\<forall>x\<in>set searches. P (os_path_join (site_root self) (fst x)) \<Longrightarrow>
   trace_ext P s (snd (search_loop self h searches s))"
proof (induction searches arbitrary: s)
  case Nil
  then show ?case by simp
next
  case (Cons a searches)
  obtain dir_parts base where a: "a = (dir_parts, base)" by (cases a)
  let ?d = "os_path_join (site_root self) dir_parts"
  have P: "P ?d" using Cons.prems a by simp
  have rest: "\<And>s'. trace_ext P s' (snd (search_loop self h searches s'))"
    using Cons by simp
  have s1: "trace_ext P s (log_op (IsDir ?d) s)"
    using P by (simp add: trace_ext_log)
  have s2: "trace_ext P s (log_op (ListDir ?d) (log_op (IsDir ?d) s))"
    using P by (simp add: trace_ext_iff log_op_def)
  show ?case
    using a s1 s2 trace_ext_trans [OF s1 rest] trace_ext_trans [OF s2 rest]
    by (auto simp add: Let_def split: option.splits)
qed

lemma find_template_trace:
  "(\<And>dir_parts base. (dir_parts, base) \<in> set (searches_of (path_parts p)) \<Longrightarrow>
      P (os_path_join (site_root self) dir_parts)) \<Longrightarrow>
   trace_ext P s (snd (find_template self h p s))"
  unfolding find_template_def by (rule search_loop_trace) auto

lemma handle_simple_template_state:
  "snd (handle_simple_template self h req s) = snd (find_template self h (path req) s)"
  by (auto simp add: handle_simple_template_def Let_def split: prod.splits option.splits sum.splits)

lemma resolve_trace:
  assumes "\<And>name. P (module_filename self name)"
    and "P (static_filename self (path req))"
    and "\<And>dir_parts base. (dir_parts, base) \<in> set (searches_of (path_parts (path req))) \<Longrightarrow>
      P (os_path_join (site_root self) dir_parts)"
  shows "trace_ext P s (snd (resolve self h req s))"
proof (cases "str_contains ''/__'' (path req)")
  case True
  then show ?thesis using assms(2) by (simp add: resolve_def handle_static_file_trace)
next
  case False
  obtain r s' where t: "handle_simple_template self h req s = (r, s')"
    by (cases "handle_simple_template self h req s")
  have step: "trace_ext P s s'"
    using find_template_trace [of "path req" P self s h] assms(3)
      handle_simple_template_state [of self h req s] t by simp
  have "trace_ext P s' (snd (handle_python self h req s'))"
    using assms(1) by (rule handle_python_trace)
  with step have "trace_ext P s (snd (handle_python self h req s'))"
    by (rule trace_ext_trans)
  with False t step show ?thesis
    by (auto simp add: resolve_def split: sum.splits exn.splits)
qed

lemma catch_HTTPException_state [simp]: "snd (catch_HTTPException outcome) = snd outcome"
  by (auto simp add: catch_HTTPException_def split: prod.splits sum.splits)

lemma path_attach [simp]: "path (attach self req) = path req"
  by (simp add: attach_def)

text \<open>
  Claim C2. No segment of the request path that equals \<open>..\<close> survives the
  comprehension every resolver applies to the path, and every path on which a resolver
  performs a file-system operation (the static file lookup, the directory tests and
  listings of the template search, the \<open>isfile\<close>, \<open>stat\<close> and execution of module
  loading) has no \<open>..\<close> component, provided the site root itself has none: the request
  path contributes none. This holds for each resolver and for the whole of \<open>__call__\<close>.
\<close>

theorem no_parent_component:
  assumes "safe_path (site_root self)"
  shows "''..'' \<notin> set (path_parts (path req))
       \<and> trace_ext safe_path s (snd (handle_static_file self h req s))
       \<and> trace_ext safe_path s (snd (find_template self h (path req) s))
       \<and> trace_ext safe_path s (snd (load_python_module self h name s))
       \<and> trace_ext safe_path s (snd (handle_python self h req s))
       \<and> trace_ext safe_path s (snd (site_call self h req s))"
proof -
  have m: "\<And>name. safe_path (module_filename self name)"
    using assms by (rule safe_module_filename)
  have f: "\<And>p. safe_path (static_filename self p)"
    using assms by (rule safe_static_filename)
  have d: "\<And>p dir_parts base. (dir_parts, base) \<in> set (searches_of (path_parts p)) \<Longrightarrow>
      safe_path (os_path_join (site_root self) dir_parts)"
    using assms by (rule safe_search_dirs)
  have "''..'' \<notin> set (path_parts (path req))"
    using path_parts_clean by blast
  moreover have "trace_ext safe_path s (snd (handle_static_file self h req s))"
    using f by (rule handle_static_file_trace)
  moreover have "trace_ext safe_path s (snd (find_template self h (path req) s))"
    using d by (rule find_template_trace)
  moreover have "trace_ext safe_path s (snd (load_python_module self h name s))"
    using m by (rule load_trace)
  moreover have "trace_ext safe_path s (snd (handle_python self h req s))"
    using m by (rule handle_python_trace)
  moreover have "trace_ext safe_path s (snd (site_call self h req s))"
    unfolding site_call_def catch_HTTPException_state
    by (rule resolve_trace) (use m f d in simp_all)
  ultimately show ?thesis by blast
qed

theorem no_parent_component_witness:
  "safe_path (site_root demo_site)
   \<and> path_parts ''/../foo/../bar'' = [''foo'', ''bar'']
   \<and> trace_ext safe_path init_state
        (snd (site_call demo_site ctl_host (get_request ''/../foo/../bar'') (init_state :: nat state)))"
  using no_parent_component [of demo_site "get_request ''/../foo/../bar''" "init_state :: nat state"
      ctl_host "''foo''"]
  by (simp add: demo_site_def safe_path_def path_parts_def get_request_def)

text \<open>The definitions unfolded when the examples are evaluated.\<close>

lemmas demo_defs = demo_site_def ctl_host_def doc_host_def doc_listdir_def ctl_execfile_def
  ctl_handler_def demo_arg_count_def demo_guess_type_def init_state_def get_request_def
  nl_host_def bare_site_def foo_namespace_def foo_loaded_def

lemmas eval_defs = site_call_def catch_HTTPException_def resolve_def attach_def
  handle_simple_template_def find_template_def searches_of_def handle_static_file_def
  static_filename_def handle_python_def load_python_module_def module_filename_def
  module_qualname_def log_op_def os_path_join_def join_step_def path_parts_def
  str_strip_def re_match_def engine_alternatives_def dollar_def Let_def
  while_script_name.simps module_view_def handler_arity_def new_ops_def

subsection \<open>The router\<close>

lemma str_contains_iff: "str_contains needle s \<longleftrightarrow> (\<exists>a b. s = a @ needle @ b)"
proof (induction s)
  case Nil
  then show ?case by auto
next
  case (Cons c cs)
  show ?case
  proof
    assume "str_contains needle (c # cs)"
    then consider "prefix needle (c # cs)" | "str_contains needle cs" by auto
    then show "\<exists>a b. c # cs = a @ needle @ b"
    proof cases
      case 1
      then obtain b where "c # cs = needle @ b" by (auto simp add: prefix_def)
      then have "c # cs = [] @ needle @ b" by simp
      then show ?thesis by blast
    next
      case 2
      with Cons obtain a b where "cs = a @ needle @ b" by auto
      then have "c # cs = (c # a) @ needle @ b" by simp
      then show ?thesis by blast
    qed
  next
    assume "\<exists>a b. c # cs = a @ needle @ b"
    then obtain a b where ab: "c # cs = a @ needle @ b" by auto
    show "str_contains needle (c # cs)"
    proof (cases a)
      case Nil
      with ab have "prefix needle (c # cs)" by (simp add: prefix_def)
      then show ?thesis by simp
    next
      case (Cons x a')
      with ab have "cs = a' @ needle @ b" by simp
      with Cons.IH show ?thesis by auto
    qed
  qed
qed

lemma find_template_first_op:
  "\<exists>ops. fs_trace (snd (find_template self h p s)) =
     fs_trace s @ IsDir (os_path_join (site_root self) (path_parts p)) # ops"
proof -
  let ?d = "os_path_join (site_root self) (path_parts p)"
  let ?rest = "if path_parts p \<noteq> [] then [(butlast (path_parts p), last (path_parts p))] else []"
  have rest: "\<And>s'. trace_ext (\<lambda>p. True) s' (snd (search_loop self h ?rest s'))"
    by (rule search_loop_trace) simp
  have 1: "\<exists>ops. fs_trace (snd (search_loop self h ?rest (log_op (IsDir ?d) s))) =
            fs_trace s @ IsDir ?d # ops"
    using rest [of "log_op (IsDir ?d) s"] by (auto simp add: trace_ext_iff log_op_def)
  have 2: "\<exists>ops. fs_trace (snd (search_loop self h ?rest (log_op (ListDir ?d) (log_op (IsDir ?d) s)))) =
            fs_trace s @ IsDir ?d # ops"
    using rest [of "log_op (ListDir ?d) (log_op (IsDir ?d) s)"]
    by (auto simp add: trace_ext_iff log_op_def)
  have 3: "\<exists>ops. fs_trace (log_op (ListDir ?d) (log_op (IsDir ?d) s)) = fs_trace s @ IsDir ?d # ops"
    by (simp add: log_op_def)
  show ?thesis
    unfolding find_template_def searches_of_def
    using 1 2 3 by (auto simp add: Let_def split: option.splits simp del: search_loop.simps(1))
qed

lemma resolve_dynamic_first_op:
  assumes "\<not> str_contains ''/__'' (path req)"
  shows "\<exists>ops. fs_trace (snd (resolve self h req s)) =
     fs_trace s @ IsDir (os_path_join (site_root self) (path_parts (path req))) # ops"
proof -
  let ?d = "os_path_join (site_root self) (path_parts (path req))"
  obtain r s' where t: "handle_simple_template self h req s = (r, s')"
    by (cases "handle_simple_template self h req s")
  then have s': "s' = snd (find_template self h (path req) s)"
    using handle_simple_template_state [of self h req s] by simp
  obtain ops where ops: "fs_trace s' = fs_trace s @ IsDir ?d # ops"
    using find_template_first_op [of self h "path req" s] s' by auto
  have "trace_ext (\<lambda>p. True) s' (snd (handle_python self h req s'))"
    by (rule handle_python_trace) simp
  then obtain ops' where "fs_trace (snd (handle_python self h req s')) = fs_trace s' @ ops'"
    by (auto simp add: trace_ext_iff)
  with ops have "fs_trace (snd (handle_python self h req s')) = fs_trace s @ IsDir ?d # (ops @ ops')"
    by simp
  with assms t ops show ?thesis
    by (auto simp add: resolve_def split: sum.splits exn.splits)
qed

text \<open>
  Claim C9. The static branch is chosen by a substring test: \<open>__call__\<close> hands the
  request to the static resolver if and only if the path contains \<open>/__\<close> somewhere.
  When it does, the static resolver's \<open>isfile\<close> is the only operation on the file
  system, so neither the template nor the module resolver runs; when it does not, the
  first operation is the directory test of the template search. The path
  \<open>/foo/__bar/baz\<close> contains the substring although none of its segments is \<open>__\<close>.
\<close>

theorem static_branch_by_substring:
  "(str_contains ''/__'' (path req) \<longleftrightarrow> (\<exists>a b. path req = a @ ''/__'' @ b))
   \<and> (str_contains ''/__'' (path req) \<longrightarrow>
        resolve self h req s = handle_static_file self h req s
        \<and> new_ops s (snd (site_call self h req s)) = [IsFile (static_filename self (path req))])
   \<and> (\<not> str_contains ''/__'' (path req) \<longrightarrow>
        resolve self h req s =
          (case handle_simple_template self h req s of
             (Inl NotFound, s') \<Rightarrow> handle_python self h req s'
           | (r, s') \<Rightarrow> (r, s'))
        \<and> (\<exists>ops. new_ops s (snd (site_call self h req s)) =
              IsDir (os_path_join (site_root self) (path_parts (path req))) # ops))
   \<and> str_contains ''/__'' ''/foo/__bar/baz''
   \<and> ''__'' \<notin> set (str_split CHR ''/'' ''/foo/__bar/baz'')"
proof -
  have "\<not> str_contains ''/__'' (path req) \<Longrightarrow>
        \<exists>ops. new_ops s (snd (site_call self h req s)) =
              IsDir (os_path_join (site_root self) (path_parts (path req))) # ops"
    using resolve_dynamic_first_op [of "attach self req" self h s]
    by (auto simp add: site_call_def new_ops_def)
  moreover have "str_contains ''/__'' (path req) \<Longrightarrow>
      new_ops s (snd (site_call self h req s)) = [IsFile (static_filename self (path req))]"
    by (simp add: site_call_def resolve_def handle_static_file_def Let_def log_op_def new_ops_def)
  moreover have "str_contains ''/__'' ''/foo/__bar/baz''" by simp
  moreover have "''__'' \<notin> set (str_split CHR ''/'' ''/foo/__bar/baz'')" by simp
  moreover have "str_contains ''/__'' (path req) \<longleftrightarrow> (\<exists>a b. path req = a @ ''/__'' @ b)"
    by (rule str_contains_iff)
  ultimately show ?thesis
    by (simp add: resolve_def)
qed

theorem static_branch_by_substring_witness:
  "str_contains ''/__'' ''/foo/__bar/baz''
   \<and> new_ops init_state (snd (site_call demo_site doc_host (get_request ''/foo/__bar/baz'') init_state))
        = [IsFile ''/srv/site/foo/__bar/baz'']
   \<and> \<not> str_contains ''/__'' ''/foo/_bar__/baz''
   \<and> (\<exists>ops. new_ops init_state (snd (site_call demo_site doc_host (get_request ''/foo/_bar__/baz'') init_state))
        = IsDir ''/srv/site/foo/_bar__/baz'' # ops)"
  using static_branch_by_substring [of "get_request ''/foo/__bar/baz''" demo_site doc_host init_state]
    static_branch_by_substring [of "get_request ''/foo/_bar__/baz''" demo_site doc_host init_state]
  by (simp add: demo_defs static_filename_def os_path_join_def join_step_def path_parts_def)

text \<open>
  Claim C6. When the path contains the marker, only the static resolver runs (the one
  operation on the file system is its \<open>isfile\<close>). Otherwise the template resolver runs
  first; the module resolver runs, from the state the template resolver left, exactly
  when the template resolver raised \<open>NotFound\<close>, and otherwise the template resolver's
  outcome is final. In each case the outcome passes through the outermost \<open>except\<close>,
  which turns every HTTP exception, \<open>NotFound\<close> included, into the response and lets
  anything else through; so no HTTP exception leaves \<open>__call__\<close>.
\<close>

theorem router_control_flow:
  "(str_contains ''/__'' (path req) \<longrightarrow>
      site_call self h req s = catch_HTTPException (handle_static_file self h (attach self req) s)
      \<and> new_ops s (snd (site_call self h req s)) = [IsFile (static_filename self (path req))])
   \<and> (\<not> str_contains ''/__'' (path req) \<longrightarrow>
        (fst (handle_simple_template self h (attach self req) s) = Inl NotFound \<longrightarrow>
           site_call self h req s =
             catch_HTTPException (handle_python self h (attach self req)
               (snd (handle_simple_template self h (attach self req) s))))
        \<and> (fst (handle_simple_template self h (attach self req) s) \<noteq> Inl NotFound \<longrightarrow>
           site_call self h req s =
             catch_HTTPException (handle_simple_template self h (attach self req) s)))
   \<and> (is_HTTPException e \<longrightarrow> catch_HTTPException (Inl e, s') = (Inr (ExnResponse e), s'))
   \<and> (\<not> is_HTTPException e \<longrightarrow> catch_HTTPException (Inl e, s') = (Inl e, s'))
   \<and> catch_HTTPException (Inr r, s') = (Inr r, s')
   \<and> is_HTTPException NotFound
   \<and> (\<forall>e'. fst (site_call self h req s) = Inl e' \<longrightarrow> \<not> is_HTTPException e')"
proof -
  have static: "str_contains ''/__'' (path req) \<Longrightarrow>
      new_ops s (snd (site_call self h req s)) = [IsFile (static_filename self (path req))]"
    by (simp add: site_call_def resolve_def handle_static_file_def Let_def log_op_def new_ops_def)
  have miss: "\<not> str_contains ''/__'' (path req) \<Longrightarrow>
      fst (handle_simple_template self h (attach self req) s) = Inl NotFound \<Longrightarrow>
      site_call self h req s =
        catch_HTTPException (handle_python self h (attach self req)
          (snd (handle_simple_template self h (attach self req) s)))"
    by (cases "handle_simple_template self h (attach self req) s")
       (simp add: site_call_def resolve_def)
  have hit: "\<not> str_contains ''/__'' (path req) \<Longrightarrow>
      fst (handle_simple_template self h (attach self req) s) \<noteq> Inl NotFound \<Longrightarrow>
      site_call self h req s =
        catch_HTTPException (handle_simple_template self h (attach self req) s)"
    by (cases "handle_simple_template self h (attach self req) s")
       (auto simp add: site_call_def resolve_def split: sum.splits exn.splits)
  have escape: "\<And>e'. fst (site_call self h req s) = Inl e' \<Longrightarrow> \<not> is_HTTPException e'"
    by (auto simp add: site_call_def catch_HTTPException_def split: prod.splits sum.splits if_splits)
  show ?thesis
    using static miss hit escape
    by (simp add: site_call_def resolve_def catch_HTTPException_def)
qed

theorem router_control_flow_witness:
  "str_contains ''/__'' ''/foo/__bar/baz''
   \<and> site_call demo_site doc_host (get_request ''/foo/__bar/baz'') init_state =
       (Inr (ExnResponse NotFound),
        \<lparr>module_cache = Map.empty, fs_trace = [IsFile ''/srv/site/foo/__bar/baz'']\<rparr>)
   \<and> \<not> str_contains ''/__'' ''/lorem''
   \<and> fst (site_call demo_site doc_host (get_request ''/lorem'') init_state) =
       Inr (Response ''jinja2:lorem/index.txt.jinja2'' (Some ''text/plain''))
   \<and> fst (handle_simple_template demo_site ctl_host (attach demo_site (get_request ''/foo/bar'')) init_state)
       = Inl NotFound
   \<and> fst (site_call demo_site ctl_host (get_request ''/foo/bar'') init_state) =
       Inr (HandlerResponse ''foo:bar'')
   \<and> fst (site_call demo_site ctl_host (get_request ''/a/b'') init_state) =
       Inr (ExnResponse NotFound)"
  using router_control_flow [of "get_request ''/foo/__bar/baz''" demo_site doc_host init_state NotFound init_state]
    router_control_flow [of "get_request ''/lorem''" demo_site doc_host init_state NotFound init_state]
    router_control_flow [of "get_request ''/foo/bar''" demo_site ctl_host init_state NotFound init_state]
    router_control_flow [of "get_request ''/a/b''" demo_site ctl_host init_state NotFound init_state]
  by (simp add: demo_defs eval_defs)

text \<open>
  Claim C1. The \<open>while\<close> loop of \<open>handle_python\<close> ends as soon as \<open>script_name\<close> is
  empty, so the empty prefix is never tried: on the second example site, where
  \<open>index.py\<close> defines \<open>handle_request(request, remainder)\<close> and nothing matches
  \<open>/a/b\<close> at a non-empty prefix, the request ends in \<open>NotFound\<close>, and the trace shows
  that \<open>index.py\<close> was never looked at.
\<close>

theorem empty_prefix_not_tried:
  "handle_python demo_site ctl_host (get_request ''/a/b'') init_state =
     (Inl NotFound,
      \<lparr>module_cache = Map.empty,
       fs_trace = [IsFile ''/srv/site/a/b.py'', IsFile ''/srv/site/a/b/index.py'',
                   IsFile ''/srv/site/a/b.py'', IsFile ''/srv/site/a/b/index.py'',
                   IsFile ''/srv/site/a.py'', IsFile ''/srv/site/a/index.py'']\<rparr>)
   \<and> isfile ctl_host ''/srv/site/index.py''
   \<and> module_filename demo_site ''index'' = ''/srv/site/index.py''
   \<and> (\<exists>module. module_view demo_site ctl_host init_state ''index'' = Inr module
          \<and> handler_arity ctl_host module = Some (Inr 2))"
  by (simp add: demo_defs eval_defs)

subsection \<open>The template search\<close>

text \<open>
  What a match of the pattern says about the name: the base, a dot, a non-empty type
  free of newlines at its end, a dot and one of the alternatives, and then the end of
  the name or one newline.
\<close>

lemma match_engine_sound:
  "match_engine alts rest = Some e \<Longrightarrow> e \<in> set alts \<and> (rest = e \<or> rest = e @ [CHR 0x0A])"
proof (induction alts)
  case Nil
  then show ?case by simp
next
  case (Cons a alts)
  show ?case
  proof (cases "prefix a rest \<and> dollar (drop (length a) rest)")
    case True
    with Cons.prems have e: "e = a" by simp
    from True obtain t where t: "rest = a @ t" by (auto simp add: prefix_def)
    with True have "t = [] \<or> t = [CHR 0x0A]" by (simp add: dollar_def)
    with e t show ?thesis by auto
  next
    case False
    with Cons show ?thesis by auto
  qed
qed

lemma backtrack_sound:
  "backtrack alts rest k = Some (ty, e) \<Longrightarrow>
   ty \<noteq> [] \<and> e \<in> set alts \<and> (rest = ty @ ''.'' @ e \<or> rest = ty @ ''.'' @ e @ [CHR 0x0A])"
proof (induction k)
  case 0
  then show ?case by simp
next
  case (Suc k)
  show ?case
  proof (cases "drop (Suc k) rest")
    case Nil
    with Suc show ?thesis by simp
  next
    case (Cons c tail)
    show ?thesis
    proof (cases "c = CHR ''.'' \<and> match_engine alts tail \<noteq> None")
      case True
      then obtain e' where e': "match_engine alts tail = Some e'" by auto
      with True Cons Suc.prems have res: "ty = take (Suc k) rest" "e = e'" by auto
      have split: "rest = take (Suc k) rest @ c # tail"
        using Cons by (metis append_take_drop_id)
      have "take (Suc k) rest \<noteq> []"
        using Cons by (cases rest) auto
      moreover have "e' \<in> set alts \<and> (tail = e' \<or> tail = e' @ [CHR 0x0A])"
        using e' by (rule match_engine_sound)
      ultimately show ?thesis
        using res True split by auto
    next
      case False
      with Cons Suc show ?thesis by (auto split: option.splits)
    qed
  qed
qed

lemma re_match_sound:
  assumes "re_match self base name = Some (ty, e)"
  shows "ty \<noteq> [] \<and> e \<in> set (engine_alternatives self)
       \<and> (name = base @ ''.'' @ ty @ ''.'' @ e \<or> name = base @ ''.'' @ ty @ ''.'' @ e @ [CHR 0x0A])"
proof -
  from assms have p: "prefix base name"
    by (auto simp add: re_match_def split: if_splits)
  then obtain t where t: "name = base @ t" by (auto simp add: prefix_def)
  from assms p t obtain rest where rest: "t = CHR ''.'' # rest"
    and b: "backtrack (engine_alternatives self) rest
              (length (takeWhile (\<lambda>x. x \<noteq> CHR 0x0A) rest)) = Some (ty, e)"
    by (auto simp add: re_match_def split: list.splits if_splits)
  from b have "ty \<noteq> [] \<and> e \<in> set (engine_alternatives self)
       \<and> (rest = ty @ ''.'' @ e \<or> rest = ty @ ''.'' @ e @ [CHR 0x0A])"
    by (rule backtrack_sound)
  with t rest show ?thesis by auto
qed

lemma scan_names_sound:
  "scan_names self dir_parts base names = Some (template, ty, e) \<Longrightarrow>
   \<exists>name\<in>set names. re_match self base name = Some (ty, e)
      \<and> template = str_join ''/'' (dir_parts @ [name])"
  by (induction names) (auto split: option.splits)

text \<open>
  The second search: when the path has a segment and the first search (the directory
  of all segments, base \<open>index\<close>) returns nothing, \<open>find_template\<close> returns what the
  scan of the directory of all segments but the last returns for the last segment as
  base.
\<close>

lemma find_template_retry:
  assumes "path_parts p \<noteq> []"
    and "\<not> isdir h (os_path_join (site_root self) (path_parts p))
         \<or> scan_names self (path_parts p) ''index''
              (listdir h (os_path_join (site_root self) (path_parts p))) = None"
  shows "fst (find_template self h p s) =
           (if isdir h (os_path_join (site_root self) (butlast (path_parts p)))
            then scan_names self (butlast (path_parts p)) (last (path_parts p))
                   (listdir h (os_path_join (site_root self) (butlast (path_parts p))))
            else None)"
  using assms
  by (auto simp add: find_template_def searches_of_def Let_def split: option.splits)

text \<open>The doctest of \<open>find_template\<close>, on the first example site.\<close>

lemma find_template_doctest:
  "fst (find_template demo_site doc_host ''/'' init_state) =
     Some (''index.html.genshi'', ''html'', ''genshi'')
   \<and> fst (find_template demo_site doc_host ''/nonexistent'' init_state) = None
   \<and> fst (find_template demo_site doc_host ''/hello/'' init_state) =
     Some (''hello.html.jinja2'', ''html'', ''jinja2'')
   \<and> fst (find_template demo_site doc_host ''/hello/world'' init_state) = None
   \<and> fst (find_template demo_site doc_host ''/lorem/'' init_state) =
     Some (''lorem/index.txt.jinja2'', ''txt'', ''jinja2'')
   \<and> fst (find_template demo_site doc_host ''/lorem/ipsum'' init_state) = None"
  by (simp add: demo_defs eval_defs)

text \<open>
  Claim C7. The pattern ends in \<open>$\<close>, which also matches before a newline that ends
  the name: in a directory that holds an entry \<open>hello.html.jinja2\<close> followed by a
  newline, the second search for \<open>/hello\<close> accepts that entry, whose name is not the
  last segment followed by \<open>.<type>.<engine>\<close>. With no engine registered the pattern
  accepts \<open>hello.html.\<close> and returns the empty engine name, which is not registered.
\<close>

theorem basename_with_trailing_newline:
  "fst (find_template demo_site nl_host ''/hello'' init_state) =
     Some (''hello.html.jinja2'' @ [CHR 0x0A], ''html'', ''jinja2'')
   \<and> ''hello.html.jinja2'' @ [CHR 0x0A] \<noteq> ''hello'' @ ''.'' @ ''html'' @ ''.'' @ ''jinja2''
   \<and> re_match bare_site ''hello'' ''hello.html.'' = Some (''html'', [])"
  by (simp add: demo_defs eval_defs)

subsection \<open>One file per module name, and the view of a module\<close>

lemma str_split_joined:
  "CHR ''/'' \<notin> set p \<Longrightarrow> \<forall>x\<in>set ps. CHR ''/'' \<notin> set x \<Longrightarrow>
   str_split CHR ''/'' (p @ concat (map ((#) CHR ''/'') ps)) = p # ps"
proof (induction ps arbitrary: p)
  case Nil
  then show ?case by (simp add: str_split_no_sep_id)
next
  case (Cons x xs)
  have "str_split CHR ''/'' (x @ concat (map ((#) CHR ''/'') xs)) = x # xs"
    using Cons by simp
  with Cons.prems show ?case
    by (simp add: str_split_append_sep str_split_no_sep_id)
qed

lemma foldl_join_step_clean:
  "a \<noteq> [] \<Longrightarrow> last a \<noteq> CHR ''/'' \<Longrightarrow> \<forall>p\<in>set ps. p \<noteq> [] \<and> CHR ''/'' \<notin> set p \<Longrightarrow>
   foldl join_step a ps = a @ concat (map ((#) CHR ''/'') ps)"
proof (induction ps arbitrary: a)
  case Nil
  then show ?case by simp
next
  case (Cons p ps)
  from Cons.prems have p: "p \<noteq> []" "CHR ''/'' \<notin> set p" by auto
  then have hd: "hd p \<noteq> CHR ''/''" by (cases p) auto
  from p have lst: "last p \<noteq> CHR ''/''" using last_in_set by metis
  have step: "join_step a p = a @ CHR ''/'' # p"
    using Cons.prems hd by (simp add: join_step_def)
  have "foldl join_step (a @ CHR ''/'' # p) ps = (a @ CHR ''/'' # p) @ concat (map ((#) CHR ''/'') ps)"
    using Cons.prems p lst by (intro Cons.IH) auto
  with step show ?case by simp
qed

lemma os_path_join_clean:
  assumes "\<forall>p\<in>set (p # ps). p \<noteq> [] \<and> CHR ''/'' \<notin> set p"
  shows "os_path_join a (p # ps) = a @ sep_after a @ p @ concat (map ((#) CHR ''/'') ps)"
proof -
  from assms have p: "p \<noteq> []" "CHR ''/'' \<notin> set p" by auto
  then have hd: "hd p \<noteq> CHR ''/''" by (cases p) auto
  from p have lst: "last p \<noteq> CHR ''/''" using last_in_set by metis
  have step: "join_step a p = a @ sep_after a @ p"
    using hd by (simp add: join_step_def sep_after_def)
  have "foldl join_step (a @ sep_after a @ p) ps =
          (a @ sep_after a @ p) @ concat (map ((#) CHR ''/'') ps)"
    using assms p lst by (intro foldl_join_step_clean) auto
  with step show ?thesis by (simp add: os_path_join_def)
qed

lemma os_path_join_inj:
  assumes eq: "os_path_join a ps = os_path_join a qs"
    and ps: "\<forall>p\<in>set ps. p \<noteq> [] \<and> CHR ''/'' \<notin> set p"
    and qs: "\<forall>p\<in>set qs. p \<noteq> [] \<and> CHR ''/'' \<notin> set p"
  shows "ps = qs"
proof (cases ps)
  case Nil
  show ?thesis
  proof (cases qs)
    case Nil
    with \<open>ps = []\<close> show ?thesis by simp
  next
    case (Cons q qs')
    with qs have "os_path_join a qs = a @ sep_after a @ q @ concat (map ((#) CHR ''/'') qs')"
      by (simp add: os_path_join_clean)
    with eq \<open>ps = []\<close> have "q = []" by (simp add: os_path_join_def)
    with qs Cons show ?thesis by simp
  qed
next
  case (Cons p ps')
  with ps have P: "os_path_join a ps = a @ sep_after a @ p @ concat (map ((#) CHR ''/'') ps')"
    by (simp add: os_path_join_clean)
  show ?thesis
  proof (cases qs)
    case Nil
    with eq P have "p = []" by (simp add: os_path_join_def)
    with ps Cons show ?thesis by simp
  next
    case qs': (Cons q qs')
    with qs have "os_path_join a qs = a @ sep_after a @ q @ concat (map ((#) CHR ''/'') qs')"
      by (simp add: os_path_join_clean)
    with eq P have "p @ concat (map ((#) CHR ''/'') ps') = q @ concat (map ((#) CHR ''/'') qs')"
      by simp
    then have "str_split CHR ''/'' (p @ concat (map ((#) CHR ''/'') ps')) =
               str_split CHR ''/'' (q @ concat (map ((#) CHR ''/'') qs'))"
      by simp
    moreover have "str_split CHR ''/'' (p @ concat (map ((#) CHR ''/'') ps')) = p # ps'"
      using ps Cons by (intro str_split_joined) auto
    moreover have "str_split CHR ''/'' (q @ concat (map ((#) CHR ''/'') qs')) = q # qs'"
      using qs qs' by (intro str_split_joined) auto
    ultimately show ?thesis using Cons qs' by simp
  qed
qed

lemma module_filename_inj:
  assumes "module_filename self name = module_filename self name'"
  shows "path_parts name = path_parts name'"
proof -
  have "os_path_join (site_root self) (path_parts name) =
        os_path_join (site_root self) (path_parts name')"
    using assms by (simp add: module_filename_def)
  then show ?thesis
    using path_parts_clean by (intro os_path_join_inj [of "site_root self"]) blast+
qed

lemma module_view_cache:
  "module_cache s1 = module_cache s2 \<Longrightarrow> module_view self h s1 name = module_view self h s2 name"
  by (simp add: module_view_def load_python_module_def Let_def log_op_def
      split: option.splits sum.splits prod.splits)

lemma load_cache_cases:
  "module_cache (snd (load_python_module self h name s)) = module_cache s
   \<or> (\<exists>namespace. isfile h (module_filename self name)
         \<and> \<not> cache_fresh h s (module_filename self name)
         \<and> execfile h (module_filename self name)
              (Map.empty(''__name__'' \<mapsto> PyStr (module_qualname name))) = Inr namespace
         \<and> module_cache (snd (load_python_module self h name s)) =
              (module_cache s)(module_filename self name \<mapsto>
                 (namespace, st_mtime h (module_filename self name))))"
  by (auto simp add: load_python_module_def Let_def log_op_def cache_fresh_def
      split: option.splits sum.splits)

lemma module_view_unfold:
  "module_view self h s name =
     (if \<not> isfile h (module_filename self name) then Inr Map.empty
      else case module_cache s (module_filename self name) of
             None \<Rightarrow> execfile h (module_filename self name)
                        (Map.empty(''__name__'' \<mapsto> PyStr (module_qualname name)))
           | Some (module, old_mtime) \<Rightarrow>
               if st_mtime h (module_filename self name) = old_mtime then Inr module
               else execfile h (module_filename self name)
                        (Map.empty(''__name__'' \<mapsto> PyStr (module_qualname name))))"
  by (auto simp add: module_view_def load_python_module_def Let_def log_op_def
      split: option.splits sum.splits)

lemma module_view_preserved:
  "module_view self h (snd (load_python_module self h name s)) name' = module_view self h s name'"
proof -
  let ?s' = "snd (load_python_module self h name s)"
  let ?f = "module_filename self name"
  consider (same) "module_cache ?s' = module_cache s"
    | (reload) namespace where "isfile h ?f" "\<not> cache_fresh h s ?f"
        "execfile h ?f (Map.empty(''__name__'' \<mapsto> PyStr (module_qualname name))) = Inr namespace"
        "module_cache ?s' = (module_cache s)(?f \<mapsto> (namespace, st_mtime h ?f))"
    using load_cache_cases [of self h name s] by blast
  then show ?thesis
  proof cases
    case same
    then show ?thesis by (rule module_view_cache)
  next
    case reload
    show ?thesis
    proof (cases "module_filename self name' = ?f")
      case False
      with reload(4) show ?thesis by (simp add: module_view_unfold)
    next
      case True
      then have "path_parts name' = path_parts name" by (rule module_filename_inj)
      then have q: "module_qualname name' = module_qualname name"
        by (simp add: module_qualname_def)
      from True reload q show ?thesis
        by (auto simp add: module_view_unfold cache_fresh_def split: option.splits)
    qed
  qed
qed

lemma load_as_view:
  "load_python_module self h name s =
     (module_view self h s name, snd (load_python_module self h name s))"
  by (simp add: module_view_def)

subsection \<open>The controller resolver\<close>

lemma exact_loop_split:
  "exact_loop self h req (sfx # sfxs) s =
     (case exact_loop self h req [sfx] s of
        (Some r, s') \<Rightarrow> (Some r, s')
      | (None, s') \<Rightarrow> exact_loop self h req sfxs s')"
  by (auto split: prod.splits sum.splits option.splits)

text \<open>
  Claim C3. When the module named by the whole path, with suffix \<open>""\<close> or, after the
  first suffix has been passed over, with suffix \<open>"/index"\<close>, defines
  \<open>handle_request\<close> with a declared parameter count of one, \<open>handle_python\<close> returns
  what the call of that handler with the request alone returns, in the state that the
  loading of this module left: the \<open>while\<close> loop over the prefixes is not entered.
\<close>

theorem exact_path_handler_wins:
  assumes "load_python_module self h (str_strip CHR ''/'' (path req) @ sfx) s0 = (Inr module, s1)"
    and "module ''handle_request'' = Some handler"
    and "arg_count h handler = Inr 1"
    and "(sfx = [] \<and> s0 = s) \<or> (sfx = ''/index'' \<and> exact_loop self h req [[]] s = (None, s0))"
  shows "handle_python self h req s = (py_call handler req [], s1)"
proof -
  have one: "exact_loop self h req [sfx] s0 = (Some (py_call handler req []), s1)"
    using assms(1-3) by simp
  from assms(4) show ?thesis
  proof
    assume "sfx = [] \<and> s0 = s"
    with one have "exact_loop self h req [[]] s = (Some (py_call handler req []), s1)" by simp
    then have "exact_loop self h req [[], ''/index''] s = (Some (py_call handler req []), s1)"
      by (subst exact_loop_split) simp
    then show ?thesis by (simp add: handle_python_def)
  next
    assume a: "sfx = ''/index'' \<and> exact_loop self h req [[]] s = (None, s0)"
    with one have "exact_loop self h req [''/index''] s0 = (Some (py_call handler req []), s1)"
      by simp
    with a have "exact_loop self h req [[], ''/index''] s = (Some (py_call handler req []), s1)"
      by (subst exact_loop_split) simp
    then show ?thesis by (simp add: handle_python_def)
  qed
qed

theorem exact_path_handler_wins_witness:
  "arg_count ctl_host (ctl_handler 1 ''page/index'') = Inr 1
   \<and> exact_loop demo_site ctl_host (get_request ''/page'') [[]] init_state =
       (None, snd (load_python_module demo_site ctl_host ''page'' init_state))
   \<and> fst (handle_python demo_site ctl_host (get_request ''/page'') init_state) =
       Inr (HandlerResponse ''page/index:'')
   \<and> new_ops init_state (snd (handle_python demo_site ctl_host (get_request ''/page'') init_state)) =
       [IsFile ''/srv/site/page.py'', Stat ''/srv/site/page.py'',
        ExecFile ''/srv/site/page.py'' ''kraken.site.page'',
        IsFile ''/srv/site/page/index.py'', Stat ''/srv/site/page/index.py'',
        ExecFile ''/srv/site/page/index.py'' ''kraken.site.page.index'']"
  using exact_path_handler_wins [of demo_site ctl_host "get_request ''/page''" "''/index''"
      "snd (load_python_module demo_site ctl_host ''page'' init_state)"
      "projr (fst (load_python_module demo_site ctl_host ''page/index''
         (snd (load_python_module demo_site ctl_host ''page'' init_state))))"
      "snd (load_python_module demo_site ctl_host ''page/index''
         (snd (load_python_module demo_site ctl_host ''page'' init_state)))"
      "ctl_handler 1 ''page/index''" init_state]
  by (simp add: demo_defs eval_defs)

lemma exact_loop_view:
  "exact_loop self h req (sfx # sfxs) s =
     (case module_view self h s (str_strip CHR ''/'' (path req) @ sfx) of
        Inl e \<Rightarrow> (Some (Inl e),
                  snd (load_python_module self h (str_strip CHR ''/'' (path req) @ sfx) s))
      | Inr module \<Rightarrow>
          (case handler_arity h module of
             None \<Rightarrow> exact_loop self h req sfxs
                       (snd (load_python_module self h (str_strip CHR ''/'' (path req) @ sfx) s))
           | Some (Inl e) \<Rightarrow> (Some (Inl e),
                  snd (load_python_module self h (str_strip CHR ''/'' (path req) @ sfx) s))
           | Some (Inr n) \<Rightarrow>
               if n = 1 then
                 (Some (py_call (the (module ''handle_request'')) req []),
                  snd (load_python_module self h (str_strip CHR ''/'' (path req) @ sfx) s))
               else exact_loop self h req sfxs
                      (snd (load_python_module self h (str_strip CHR ''/'' (path req) @ sfx) s))))"
  by (auto simp add: module_view_def handler_arity_def split: prod.splits sum.splits option.splits)

lemma prefix_loop_view:
  "prefix_loop self h req script_name path_info (sfx # sfxs) s =
     (case module_view self h s (str_join ''/'' script_name @ sfx) of
        Inl e \<Rightarrow> (Some (Inl e),
                  snd (load_python_module self h (str_join ''/'' script_name @ sfx) s))
      | Inr module \<Rightarrow>
          (case handler_arity h module of
             None \<Rightarrow> prefix_loop self h req script_name path_info sfxs
                       (snd (load_python_module self h (str_join ''/'' script_name @ sfx) s))
           | Some (Inl e) \<Rightarrow> (Some (Inl e),
                  snd (load_python_module self h (str_join ''/'' script_name @ sfx) s))
           | Some (Inr n) \<Rightarrow>
               if n > 1 then
                 (Some (py_call (the (module ''handle_request'')) req [str_join ''/'' path_info]),
                  snd (load_python_module self h (str_join ''/'' script_name @ sfx) s))
               else prefix_loop self h req script_name path_info sfxs
                      (snd (load_python_module self h (str_join ''/'' script_name @ sfx) s))))"
  by (auto simp add: module_view_def handler_arity_def split: prod.splits sum.splits option.splits)

text \<open>
  Claim C4. For the path \<open>/foo/bar\<close>: when the modules \<open>foo/bar\<close> and
  \<open>foo/bar/index\<close> load and define no handler that applies (no \<open>handle_request\<close>, or
  one that declares no parameter), and the module \<open>foo\<close> loads and defines
  \<open>handle_request\<close> with a declared parameter count greater than one, then
  \<open>handle_python\<close> returns what the call of that handler with the request and the
  remainder \<open>"bar"\<close> returns.
\<close>

theorem prefix_handler_gets_remainder:
  assumes "path req = ''/foo/bar''"
    and "module_view self h s ''foo/bar'' = Inr exact"
    and "handler_arity h exact = None \<or> handler_arity h exact = Some (Inr 0)"
    and "module_view self h s ''foo/bar/index'' = Inr exact_index"
    and "handler_arity h exact_index = None \<or> handler_arity h exact_index = Some (Inr 0)"
    and "module_view self h s ''foo'' = Inr module"
    and "module ''handle_request'' = Some handler"
    and "arg_count h handler = Inr n"
    and "n > 1"
  shows "fst (handle_python self h req s) = py_call handler req [''bar'']"
proof -
  have strip: "str_strip CHR ''/'' (path req) = ''foo/bar''"
    using assms(1) by (simp add: str_strip_def)
  have parts: "path_parts (path req) = [''foo'', ''bar'']"
    using assms(1) by (simp add: path_parts_def)
  have arity: "handler_arity h module = Some (Inr n)"
    using assms(7,8) by (simp add: handler_arity_def)
  define sA where "sA = snd (exact_loop self h req [[], ''/index''] s)"
  have A: "exact_loop self h req [[], ''/index''] s = (None, sA)"
    unfolding sA_def using assms(2-5) strip
    by (auto simp add: exact_loop_view module_view_preserved simp del: exact_loop.simps(2))
  have viewA: "\<And>name. module_view self h sA name = module_view self h s name"
    unfolding sA_def using assms(2-5) strip
    by (auto simp add: exact_loop_view module_view_preserved simp del: exact_loop.simps(2))
  define sB where "sB = snd (prefix_loop self h req [''foo'', ''bar''] [] [[], ''/index''] sA)"
  have B: "prefix_loop self h req [''foo'', ''bar''] [] [[], ''/index''] sA = (None, sB)"
    unfolding sB_def using assms(2-5) viewA
    by (auto simp add: prefix_loop_view module_view_preserved simp del: prefix_loop.simps(2))
  have viewB: "\<And>name. module_view self h sB name = module_view self h s name"
    unfolding sB_def using assms(2-5) viewA
    by (auto simp add: prefix_loop_view module_view_preserved simp del: prefix_loop.simps(2))
  have C: "fst (prefix_loop self h req [''foo''] [''bar''] [[], ''/index''] sB) =
             Some (py_call handler req [''bar''])"
    using assms(6,7,9) arity viewB by (simp add: prefix_loop_view del: prefix_loop.simps(2))
  have "fst (while_script_name self h req [''foo''] [''bar''] sB) = py_call handler req [''bar'']"
    using C
    by (subst while_script_name.simps)
       (auto split: prod.splits option.splits)
  then have "fst (while_script_name self h req [''foo'', ''bar''] [] sA) =
               py_call handler req [''bar'']"
    using B by (subst while_script_name.simps) simp
  with A parts show ?thesis by (simp add: handle_python_def)
qed

theorem prefix_handler_gets_remainder_witness:
  "module_view demo_site ctl_host init_state ''foo/bar'' = Inr Map.empty
   \<and> module_view demo_site ctl_host init_state ''foo'' = Inr foo_namespace
   \<and> arg_count ctl_host (ctl_handler 2 ''foo'') = Inr 2
   \<and> fst (handle_python demo_site ctl_host (get_request ''/foo/bar'') init_state) =
       Inr (HandlerResponse ''foo:bar'')"
  using prefix_handler_gets_remainder [of "get_request ''/foo/bar''" demo_site ctl_host init_state
      Map.empty Map.empty foo_namespace "ctl_handler 2 ''foo''" 2]
  by (simp add: demo_defs eval_defs)

subsection \<open>Paths with no segment\<close>

lemma path_parts_dropWhile:
  "path_parts (dropWhile (\<lambda>x. x = CHR ''/'') p) = path_parts p"
  by (induction p) (auto simp add: path_parts_def)

lemma path_parts_append_slash: "path_parts (p @ ''/'') = path_parts p"
  using str_split_append_sep [of "CHR ''/''" p "[]"] by (simp add: path_parts_def)

lemma path_parts_strip_right:
  "path_parts (rev (dropWhile (\<lambda>x. x = CHR ''/'') (rev p))) = path_parts p"
proof (induction p rule: rev_induct)
  case Nil
  then show ?case by simp
next
  case (snoc x xs)
  show ?case
  proof (cases "x = CHR ''/''")
    case True
    with snoc show ?thesis by (simp add: path_parts_append_slash)
  next
    case False
    then show ?thesis by simp
  qed
qed

lemma path_parts_strip: "path_parts (str_strip CHR ''/'' p) = path_parts p"
  by (simp add: str_strip_def path_parts_strip_right path_parts_dropWhile)

lemma all_dropped_iff: "(\<forall>x\<in>set (dropWhile (\<lambda>x. x = c) p). x = c) \<longleftrightarrow> dropWhile (\<lambda>x. x = c) p = []"
proof
  assume a: "\<forall>x\<in>set (dropWhile (\<lambda>x. x = c) p). x = c"
  show "dropWhile (\<lambda>x. x = c) p = []"
  proof (rule ccontr)
    assume n: "dropWhile (\<lambda>x. x = c) p \<noteq> []"
    then have "hd (dropWhile (\<lambda>x. x = c) p) \<noteq> c" by (rule hd_dropWhile)
    moreover have "hd (dropWhile (\<lambda>x. x = c) p) \<in> set (dropWhile (\<lambda>x. x = c) p)"
      using n by (rule hd_in_set)
    ultimately show False using a by blast
  qed
next
  assume e: "dropWhile (\<lambda>x. x = c) p = []"
  show "\<forall>x\<in>set (dropWhile (\<lambda>x. x = c) p). x = c" unfolding e by simp
qed

lemma dropWhile_all_iff: "dropWhile (\<lambda>x. x = c) p = [] \<longleftrightarrow> set p \<subseteq> {c}"
  unfolding dropWhile_eq_Nil_conv by blast

lemma str_strip_empty_iff: "str_strip c p = [] \<longleftrightarrow> set p \<subseteq> {c}"
proof -
  have "str_strip c p = [] \<longleftrightarrow> (\<forall>x\<in>set (dropWhile (\<lambda>x. x = c) p). x = c)"
    unfolding str_strip_def by (simp only: rev_is_Nil_conv dropWhile_eq_Nil_conv set_rev)
  also have "\<dots> \<longleftrightarrow> dropWhile (\<lambda>x. x = c) p = []"
    by (rule all_dropped_iff)
  also have "\<dots> \<longleftrightarrow> set p \<subseteq> {c}"
    by (rule dropWhile_all_iff)
  finally show ?thesis .
qed

lemma handle_python_after_first_load:
  "trace_ext (\<lambda>p. True)
     (snd (load_python_module self h (str_strip CHR ''/'' (path req)) s))
     (snd (handle_python self h req s))"
proof -
  let ?P = "\<lambda>p::string. True"
  obtain r s1 where l: "load_python_module self h (str_strip CHR ''/'' (path req)) s = (r, s1)"
    by (cases "load_python_module self h (str_strip CHR ''/'' (path req)) s")
  obtain r2 s2 where e: "exact_loop self h req [''/index''] s1 = (r2, s2)"
    by (cases "exact_loop self h req [''/index''] s1")
  have 12: "trace_ext ?P s1 s2"
    using exact_loop_trace [of ?P self s1 h req "[''/index'']"] e by simp
  have w: "trace_ext ?P s2 (snd (while_script_name self h req (path_parts (path req)) [] s2))"
    by (rule while_script_name_trace) simp
  have 13: "trace_ext ?P s1 (snd (while_script_name self h req (path_parts (path req)) [] s2))"
    using 12 w by (rule trace_ext_trans)
  have "trace_ext ?P s1 (snd (handle_python self h req s))"
    unfolding handle_python_def
    by (subst exact_loop_split) (use l e 12 13 in \<open>auto split: sum.splits option.splits\<close>)
  with l show ?thesis by simp
qed

lemma path_parts_append_index:
  "path_parts (p @ ''/index'') = path_parts p @ [''index'']"
  using str_split_append_sep [of "CHR ''/''" p "''index''"] by (simp add: path_parts_def)

lemma exact_loop_single_state:
  "snd (exact_loop self h req [sfx] s) =
     snd (load_python_module self h (str_strip CHR ''/'' (path req) @ sfx) s)"
  by (auto split: prod.splits sum.splits option.splits)

lemma handle_python_no_segment_state:
  assumes "path_parts (path req) = []"
  shows "snd (handle_python self h req s) =
           snd (load_python_module self h (str_strip CHR ''/'' (path req)) s)
       \<or> snd (handle_python self h req s) =
           snd (load_python_module self h (str_strip CHR ''/'' (path req) @ ''/index'')
                  (snd (load_python_module self h (str_strip CHR ''/'' (path req)) s)))"
proof -
  have w: "\<And>s'. while_script_name self h req [] [] s' = (Inl NotFound, s')"
    by (simp add: while_script_name.simps)
  have two: "\<And>s'. snd (exact_loop self h req [''/index''] s') =
               snd (load_python_module self h (str_strip CHR ''/'' (path req) @ ''/index'') s')"
    by (rule exact_loop_single_state)
  obtain r1 s1 where l: "load_python_module self h (str_strip CHR ''/'' (path req)) s = (r1, s1)"
    by (cases "load_python_module self h (str_strip CHR ''/'' (path req)) s")
  obtain r2 s2 where e2: "exact_loop self h req [''/index''] s1 = (r2, s2)"
    by (cases "exact_loop self h req [''/index''] s1")
  have "snd (handle_python self h req s) = s1 \<or> snd (handle_python self h req s) = s2"
    unfolding handle_python_def assms
    by (subst exact_loop_split) (use l e2 w in \<open>auto split: sum.splits option.splits\<close>)
  moreover have "s1 = snd (load_python_module self h (str_strip CHR ''/'' (path req)) s)"
    using l by simp
  moreover have "s2 = snd (load_python_module self h (str_strip CHR ''/'' (path req) @ ''/index'') s1)"
    using two [of s1] e2 by simp
  ultimately show ?thesis by auto
qed

lemma steps_of_site_root_py:
  "path_steps (a @ ''.py'') =
     filter (\<lambda>c. c \<noteq> [] \<and> c \<noteq> ''.'') (butlast (str_split CHR ''/'' a))
       @ [last (str_split CHR ''/'' a) @ ''.py'']"
  using str_split_append_no_sep [of "CHR ''/''" "''.py''" a] by (simp add: path_steps_def)

lemma filter_butlast_last:
  "xs \<noteq> [] \<Longrightarrow> filter P xs = filter P (butlast xs) @ (if P (last xs) then [last xs] else [])"
  by (induction xs rule: rev_induct) simp_all

lemma steps_of_site_root:
  "path_steps a =
     filter (\<lambda>c. c \<noteq> [] \<and> c \<noteq> ''.'') (butlast (str_split CHR ''/'' a))
       @ (if last (str_split CHR ''/'' a) \<in> {[], ''.''} then [] else [last (str_split CHR ''/'' a)])"
  unfolding path_steps_def by (subst filter_butlast_last) auto

lemmas root_defs = slash_site_def slash_host_def root_loaded_def

text \<open>
  Claim C10, as amended. For a request path with no segment left after the empty and
  the \<open>..\<close> segments are dropped, the exact-path strategy passes, for the suffix
  \<open>""\<close>, the path stripped of its leading and trailing slashes: a name that has no
  segment either, and that is \<open>""\<close> exactly when the path consists of slashes only.
  \<open>load_python_module\<close> resolves that name to the site root followed by \<open>.py\<close>: the
  components of the site root, with \<open>.py\<close> appended to the last. When the last
  component of the site root is a name (not empty, \<open>.\<close> or \<open>..\<close>), that file is not
  under the site root: it lies beside it. When the last component is empty (the site
  root is empty or ends with a slash) or \<open>.\<close>, the file is under the site root. If the
  file exists and the cache does not hold it with its current modification time,
  \<open>handle_python\<close> begins by executing it, under the name \<open>kraken.site.\<close>; if the
  cache holds it with its current modification time, \<open>handle_python\<close> does not
  execute it.
\<close>

theorem empty_path_loads_site_root_py:
  assumes "path_parts (path req) = []"
  shows "path_parts (str_strip CHR ''/'' (path req) @ []) = []
       \<and> (str_strip CHR ''/'' (path req) @ [] = [] \<longleftrightarrow> set (path req) \<subseteq> {CHR ''/''})
       \<and> module_filename self (str_strip CHR ''/'' (path req) @ []) = site_root self @ ''.py''
       \<and> str_split CHR ''/'' (site_root self @ ''.py'') =
           butlast (str_split CHR ''/'' (site_root self))
             @ [last (str_split CHR ''/'' (site_root self)) @ ''.py'']
       \<and> (last (str_split CHR ''/'' (site_root self)) \<notin> {[], ''.'', ''..''} \<longrightarrow>
            \<not> under_dir (site_root self) (site_root self @ ''.py''))
       \<and> (last (str_split CHR ''/'' (site_root self)) \<in> {[], ''.''} \<longrightarrow>
            under_dir (site_root self) (site_root self @ ''.py''))
       \<and> (isfile h (site_root self @ ''.py'') \<and> \<not> cache_fresh h s (site_root self @ ''.py'') \<longrightarrow>
            (\<exists>ops. new_ops s (snd (handle_python self h req s)) =
               [IsFile (site_root self @ ''.py''), Stat (site_root self @ ''.py''),
                ExecFile (site_root self @ ''.py'') ''kraken.site.''] @ ops))
       \<and> (isfile h (site_root self @ ''.py'') \<and> cache_fresh h s (site_root self @ ''.py'') \<longrightarrow>
            (\<forall>qualname. ExecFile (site_root self @ ''.py'') qualname
                 \<notin> set (new_ops s (snd (handle_python self h req s)))))"
proof -
  let ?name = "str_strip CHR ''/'' (path req)"
  let ?f = "site_root self @ ''.py''"
  let ?g = "module_filename self (?name @ ''/index'')"
  have parts: "path_parts ?name = []"
    using assms by (simp add: path_parts_strip)
  have fname: "module_filename self ?name = ?f"
    using parts by (simp add: module_filename_def os_path_join_def)
  have qual: "module_qualname ?name = ''kraken.site.''"
    using parts by (simp add: module_qualname_def)
  have comps: "str_split CHR ''/'' ?f =
      butlast (str_split CHR ''/'' (site_root self))
        @ [last (str_split CHR ''/'' (site_root self)) @ ''.py'']"
    by (rule str_split_append_no_sep) simp
  have beside: "\<not> under_dir (site_root self) ?f"
    if "last (str_split CHR ''/'' (site_root self)) \<notin> {[], ''.'', ''..''}"
    using that unfolding under_dir_def steps_of_site_root_py
    by (subst steps_of_site_root) (simp add: strict_prefix_def)
  have under: "under_dir (site_root self) ?f"
    if "last (str_split CHR ''/'' (site_root self)) \<in> {[], ''.''}"
    using that unfolding under_dir_def steps_of_site_root_py
    by (subst steps_of_site_root) (simp add: strict_prefix_def)
  have exec: "\<exists>ops. new_ops s (snd (handle_python self h req s)) =
               [IsFile ?f, Stat ?f, ExecFile ?f ''kraken.site.''] @ ops"
    if "isfile h ?f" and "\<not> cache_fresh h s ?f"
  proof -
    have "fs_trace (snd (load_python_module self h ?name s)) =
            fs_trace s @ [IsFile ?f, Stat ?f, ExecFile ?f ''kraken.site.'']"
      using that fname qual
      by (auto simp add: load_python_module_def Let_def log_op_def cache_fresh_def
          split: option.splits sum.splits)
    moreover obtain ops where
      "fs_trace (snd (handle_python self h req s)) =
         fs_trace (snd (load_python_module self h ?name s)) @ ops"
      using handle_python_after_first_load [of self h req s] by (auto simp add: trace_ext_iff)
    ultimately show ?thesis by (simp add: new_ops_def)
  qed
  have noexec: "ExecFile ?f qualname \<notin> set (new_ops s (snd (handle_python self h req s)))"
    if "isfile h ?f" and "cache_fresh h s ?f" for qualname
  proof -
    let ?s1 = "snd (load_python_module self h ?name s)"
    have first: "fs_trace ?s1 = fs_trace s @ [IsFile ?f, Stat ?f]"
      using that fname
      by (auto simp add: load_python_module_def Let_def log_op_def cache_fresh_def
          split: option.splits sum.splits)
    have "?g = join_step (site_root self) ''index'' @ ''.py''"
      using parts by (simp add: module_filename_def os_path_join_def path_parts_append_index)
    then have other: "?g \<noteq> ?f"
      by (simp add: join_step_def)
    have "trace_ext (\<lambda>p. p \<noteq> ?f) ?s1 (snd (load_python_module self h (?name @ ''/index'') ?s1))"
      using other by (rule load_trace)
    then have "trace_ext (\<lambda>p. p \<noteq> ?f) ?s1 (snd (handle_python self h req s))"
      using handle_python_no_segment_state [OF assms, of self h s] by auto
    then obtain ops where ops: "fs_trace (snd (handle_python self h req s)) = fs_trace ?s1 @ ops"
      and other_ops: "\<forall>ev\<in>set ops. op_path ev \<noteq> ?f"
      by (auto simp add: trace_ext_iff)
    have "new_ops s (snd (handle_python self h req s)) = [IsFile ?f, Stat ?f] @ ops"
      using ops first by (simp add: new_ops_def)
    with other_ops show ?thesis by auto
  qed
  from parts fname comps beside under exec noexec show ?thesis
    by (simp add: str_strip_empty_iff)
qed

theorem empty_path_loads_site_root_py_witness:
  "path_parts ''/../..'' = []
   \<and> last (str_split CHR ''/'' (site_root demo_site)) \<notin> {[], ''.'', ''..''}
   \<and> module_filename demo_site (str_strip CHR ''/'' ''/../..'') = ''/srv/site.py''
   \<and> str_split CHR ''/'' ''/srv/site.py'' = ['''', ''srv'', ''site.py'']
   \<and> \<not> under_dir ''/srv/site'' ''/srv/site.py''
   \<and> isfile ctl_host ''/srv/site.py''
   \<and> \<not> cache_fresh ctl_host init_state ''/srv/site.py''
   \<and> (\<exists>ops. new_ops init_state (snd (handle_python demo_site ctl_host (get_request ''/../..'') init_state)) =
         [IsFile ''/srv/site.py'', Stat ''/srv/site.py'', ExecFile ''/srv/site.py'' ''kraken.site.'']
           @ ops)
   \<and> path_parts ''/'' = []
   \<and> last (str_split CHR ''/'' (site_root slash_site)) \<in> {[], ''.''}
   \<and> module_filename slash_site (str_strip CHR ''/'' ''/'') = ''/srv/site/.py''
   \<and> under_dir ''/srv/site/'' ''/srv/site/.py''
   \<and> cache_fresh ctl_host root_loaded ''/srv/site.py''
   \<and> ExecFile ''/srv/site.py'' ''kraken.site.''
        \<notin> set (new_ops root_loaded (snd (handle_python demo_site ctl_host (get_request ''/'') root_loaded)))"
  using empty_path_loads_site_root_py [of "get_request ''/../..''" demo_site ctl_host init_state]
    empty_path_loads_site_root_py [of "get_request ''/''" slash_site slash_host init_state]
    empty_path_loads_site_root_py [of "get_request ''/''" demo_site ctl_host root_loaded]
  by (simp add: demo_defs root_defs path_parts_def cache_fresh_def str_strip_def)

text \<open>
  Three inputs on which the claim as it was written fails. For \<open>/../..\<close> the name
  that the exact-path strategy builds is \<open>../..\<close>, not the empty string, although the
  path has no segment left. For a site root written \<open>/srv/site/\<close> the file of the
  empty name is \<open>/srv/site/.py\<close>, under the site root, and a request for \<open>/\<close> executes
  it. And once \<open>/srv/site.py\<close> is in the cache with its current modification time, a
  request for \<open>/\<close> finds the file but does not execute it.
\<close>

theorem site_root_py_counterexample:
  "path_parts ''/../..'' = [] \<and> str_strip CHR ''/'' ''/../..'' @ [] = ''../..''
   \<and> str_strip CHR ''/'' ''/../..'' @ [] \<noteq> []
   \<and> path_parts ''/'' = []
   \<and> module_filename slash_site (str_strip CHR ''/'' ''/'' @ []) = ''/srv/site/.py''
   \<and> under_dir (site_root slash_site) ''/srv/site/.py''
   \<and> new_ops init_state (snd (handle_python slash_site slash_host (get_request ''/'') init_state)) =
       [IsFile ''/srv/site/.py'', Stat ''/srv/site/.py'',
        ExecFile ''/srv/site/.py'' ''kraken.site.'', IsFile ''/srv/site/index.py'']
   \<and> snd (load_python_module demo_site ctl_host (str_strip CHR ''/'' ''/'' @ []) init_state) =
       root_loaded
   \<and> isfile ctl_host ''/srv/site.py''
   \<and> new_ops root_loaded (snd (handle_python demo_site ctl_host (get_request ''/'') root_loaded)) =
       [IsFile ''/srv/site.py'', Stat ''/srv/site.py'', IsFile ''/srv/site/index.py'',
        Stat ''/srv/site/index.py'', ExecFile ''/srv/site/index.py'' ''kraken.site.index'']"
  by (simp add: demo_defs root_defs eval_defs under_dir_def path_steps_def)

end
